theory Spec2Isabelle
  imports Main
begin

chapter \<open>Capabilities and contracts of the semantic automation domain\<close>

text \<open>
  A shallow embedding of \<^verbatim>\<open>SemanTestCapability\<close> and \<^verbatim>\<open>SemanTestContract\<close>
  (\<^verbatim>\<open>src/domain/semantic-automation/semantest-capability.entity.ts\<close>, which also holds
  the text of \<^verbatim>\<open>semantest-contract.entity.ts\<close>; the line numbers below are those of
  that file), and the properties of their validation, their \<^verbatim>\<open>with\<close> operations and
  their serialization.

  The props of an entity are a record, and a method is a function of the props. What a
  method throws is a value: a function that can throw returns \<open>js_error + 'a\<close>, with
  \<open>Inl\<close> the exception. The clock, the regular expressions and the conversions of
  dates belong to the host and are arguments of the functions that use them. The arrays
  \<^verbatim>\<open>errors\<close> and \<^verbatim>\<open>warnings\<close> that the validations push to are lists passed
  through the loops, and each loop of the source is a recursive function of its own.
\<close>

section \<open>JavaScript values\<close>

text \<open>
  The entities of \<^verbatim>\<open>semantest-capability.entity.ts\<close> and
  \<^verbatim>\<open>semantest-contract.entity.ts\<close> carry values of type \<^verbatim>\<open>any\<close> (arguments,
  defaults, enum members), so the run-time values of the language are part of the model.

  Numbers: the finite numbers are the integer-valued ones (which print in plain decimal
  notation below \<open>10^21\<close>); \<^verbatim>\<open>NaN\<close> and the two infinities are kept, because \<^verbatim>\<open>NaN\<close> is falsy
  and compares false with everything. Strings are lists of code units, so \<open>length\<close> is
  \<^verbatim>\<open>.length\<close>. Values with identity (symbols, functions, arrays, objects) carry a
  number standing for the reference, so that equality of model values is the
  \<^verbatim>\<open>SameValueZero\<close> comparison \<^verbatim>\<open>Array.prototype.includes\<close> makes.
\<close>

datatype jsnum = NaN | NegInfinity | Fin int | Infinity

datatype jsval =
    JUndefined
  | JNull
  | JBoolean bool
  | JNumber jsnum
  | JBigInt int
  | JString string
  | JSymbol nat
  | JFunction nat string
  | JArray nat "jsval list"
  | JObject nat "(string \<times> jsval) list"

text \<open>The exceptions the code can meet; each carries its \<^verbatim>\<open>message\<close>.\<close>

datatype js_error = TypeError string | SyntaxError string | RangeError string

fun message :: "js_error \<Rightarrow> string" where
  "message (TypeError m) = m"
| "message (SyntaxError m) = m"
| "message (RangeError m) = m"

text \<open>\<^verbatim>\<open>typeof v\<close>.\<close>

fun typeof :: "jsval \<Rightarrow> string" where
  "typeof JUndefined = ''undefined''"
| "typeof JNull = ''object''"
| "typeof (JBoolean b) = ''boolean''"
| "typeof (JNumber n) = ''number''"
| "typeof (JBigInt i) = ''bigint''"
| "typeof (JString s) = ''string''"
| "typeof (JSymbol r) = ''symbol''"
| "typeof (JFunction r src) = ''function''"
| "typeof (JArray r xs) = ''object''"
| "typeof (JObject r kvs) = ''object''"

text \<open>\<^verbatim>\<open>Array.isArray(v)\<close>.\<close>

fun isArray :: "jsval \<Rightarrow> bool" where
  "isArray (JArray r xs) = True"
| "isArray v = False"

text \<open>Truthiness of a number: every number but \<^verbatim>\<open>0\<close> and \<^verbatim>\<open>NaN\<close>.\<close>

fun truthy_number :: "jsnum \<Rightarrow> bool" where
  "truthy_number NaN = False"
| "truthy_number (Fin i) = (i \<noteq> 0)"
| "truthy_number n = True"

text \<open>The comparison \<^verbatim>\<open>a < b\<close> on numbers (\<^verbatim>\<open>a > b\<close> is \<open>less_number b a\<close>).\<close>

fun less_number :: "jsnum \<Rightarrow> jsnum \<Rightarrow> bool" where
  "less_number NaN b = False"
| "less_number a NaN = False"
| "less_number a NegInfinity = False"
| "less_number NegInfinity b = True"
| "less_number Infinity b = False"
| "less_number (Fin i) Infinity = True"
| "less_number (Fin i) (Fin j) = (i < j)"

text \<open>
  Decimal digits of a natural number, and \<^verbatim>\<open>String(n)\<close> for a number. A finite number
  prints as its decimal numeral, which is what the host writes for an integer of magnitude
  below \<open>10^21\<close>; from there on the host turns to the exponent form (\<^verbatim>\<open>1e+21\<close>), which
  is not modelled.
\<close>

fun digits :: "nat \<Rightarrow> string" where
  "digits n =
     (if n < 10 then [''0123456789'' ! n]
      else digits (n div 10) @ [''0123456789'' ! (n mod 10)])"

declare digits.simps [simp del]

definition int_to_string :: "int \<Rightarrow> string" where
  "int_to_string i = (if i < 0 then ''-'' @ digits (nat (- i)) else digits (nat i))"

fun number_to_string :: "jsnum \<Rightarrow> string" where
  "number_to_string NaN = ''NaN''"
| "number_to_string NegInfinity = ''-Infinity''"
| "number_to_string Infinity = ''Infinity''"
| "number_to_string (Fin i) = int_to_string i"

text \<open>
  \<^verbatim>\<open>String(v)\<close> and \<^verbatim>\<open>xs.join(sep)\<close>: \<^verbatim>\<open>join\<close> prints \<^verbatim>\<open>undefined\<close> and
  \<^verbatim>\<open>null\<close> members as the empty string, an array prints as its members joined by a
  comma, a plain object as \<^verbatim>\<open>[object Object]\<close>, a function as its source text, and
  converting a symbol throws a \<^verbatim>\<open>TypeError\<close>.
\<close>

fun to_string :: "jsval \<Rightarrow> js_error + string"
  and join :: "string \<Rightarrow> jsval list \<Rightarrow> js_error + string"
  and join_member :: "jsval \<Rightarrow> js_error + string" where
  "to_string JUndefined = Inr ''undefined''"
| "to_string JNull = Inr ''null''"
| "to_string (JBoolean b) = Inr (if b then ''true'' else ''false'')"
| "to_string (JNumber n) = Inr (number_to_string n)"
| "to_string (JBigInt i) = Inr (int_to_string i)"
| "to_string (JString s) = Inr s"
| "to_string (JSymbol r) = Inl (TypeError ''Cannot convert a Symbol value to a string'')"
| "to_string (JFunction r src) = Inr src"
| "to_string (JArray r xs) = join '','' xs"
| "to_string (JObject r kvs) = Inr ''[object Object]''"
| "join sep [] = Inr ''''"
| "join sep [x] = join_member x"
| "join sep (x # y # ys) =
     (case join_member x of
        Inl e \<Rightarrow> Inl e
      | Inr s \<Rightarrow> (case join sep (y # ys) of Inl e \<Rightarrow> Inl e | Inr t \<Rightarrow> Inr (s @ sep @ t)))"
| "join_member JUndefined = Inr ''''"
| "join_member JNull = Inr ''''"
| "join_member v = to_string v"

text \<open>\<^verbatim>\<open>xs.join(sep)\<close> for an array of strings.\<close>

fun join_strings :: "string \<Rightarrow> string list \<Rightarrow> string" where
  "join_strings sep [] = ''''"
| "join_strings sep [x] = x"
| "join_strings sep (x # y # ys) = x @ sep @ join_strings sep (y # ys)"

subsection \<open>Records keyed by name\<close>

text \<open>
  A \<^verbatim>\<open>Record<string, T>\<close> is an ordinary object: its own enumerable properties, in the
  order \<^verbatim>\<open>Object.entries\<close> and \<^verbatim>\<open>Object.keys\<close> list them, over the prototype
  \<^verbatim>\<open>Object.prototype\<close>.
\<close>

type_synonym 'v js_record = "(string \<times> 'v) list"

text \<open>The property names every ordinary object inherits from \<^verbatim>\<open>Object.prototype\<close>.\<close>

definition object_prototype_names :: "string list" where
  "object_prototype_names =
     [''constructor'', ''__defineGetter__'', ''__defineSetter__'', ''hasOwnProperty'',
      ''__lookupGetter__'', ''__lookupSetter__'', ''isPrototypeOf'',
      ''propertyIsEnumerable'', ''toString'', ''valueOf'', ''__proto__'',
      ''toLocaleString'']"

text \<open>
  \<^verbatim>\<open>name in obj\<close>: the operator looks for the property in the object and then along
  its prototype chain.
\<close>

definition has_property :: "string \<Rightarrow> 'v js_record \<Rightarrow> bool" where
  "has_property k obj \<longleftrightarrow> k \<in> set (map fst obj) \<or> k \<in> set object_prototype_names"


section \<open>Parameter schema\<close>

text \<open>
  \<^verbatim>\<open>ParameterValidation\<close> and \<^verbatim>\<open>ParameterDefinition\<close> of
  \<^verbatim>\<open>semantest-contract.entity.ts\<close>. An optional field is an \<open>option\<close>
  (\<open>None\<close> is \<^verbatim>\<open>undefined\<close>). Fields of different interfaces share names in the
  source (\<^verbatim>\<open>name\<close>, \<^verbatim>\<open>type\<close>, \<^verbatim>\<open>description\<close>, ...); here each
  carries a prefix for its interface. The declared type of a parameter is kept as the
  string the object holds at run time: the six names of \<^verbatim>\<open>ParameterType\<close> are the
  well-typed ones, and \<^verbatim>\<open>validate\<close> itself tests for an empty one.
\<close>

record ParameterValidation =
  minLength :: "jsnum option"
  maxLength :: "jsnum option"
  pattern :: "string option"
  minimum :: "jsnum option"
  maximum :: "jsnum option"
  enum' :: "jsval list option"

record ParameterDefinition =
  param_name :: string
  param_type :: string
  param_description :: "string option"
  param_required :: "bool option"
  param_default :: "jsval option"
  param_validation :: "ParameterValidation option"
  param_examples :: "jsval list option"

definition ParameterType :: "string list" where
  "ParameterType = [''string'', ''number'', ''boolean'', ''object'', ''array'', ''file'']"

section \<open>Capability\<close>

datatype CapabilityType = Action | Query | Navigation | Form | File | Wait | Validation

datatype WaitType = Visible | Present | Hidden | Enabled | Text | Custom

datatype ConditionType = ElementCondition | UrlCondition | TextCondition | CustomCondition

record WaitCondition =
  wait_type :: WaitType
  wait_timeout :: "jsnum option"
  wait_text :: "string option"
  wait_customCondition :: "string option"

record SelectorDefinition =
  primary :: string
  fallback :: "string list option"
  wait :: "WaitCondition option"
  validator :: "string option"
  frame :: "string option"
  shadowRoot :: "bool option"

datatype selector = SelectorString string | SelectorObject SelectorDefinition

record ReturnTypeDefinition =
  return_type :: string
  return_description :: "string option"
  return_schema :: "jsval option"
  return_examples :: "jsval list option"

record ValidationRules =
  elementExists :: "bool option"
  elementVisible :: "bool option"
  elementEnabled :: "bool option"
  customValidator :: "string option"

record ExecutionCondition =
  condition_type :: ConditionType
  condition_selector :: "string option"
  urlPattern :: "string option"
  condition_text :: "string option"
  customCondition :: "string option"
  negate :: "bool option"

record CapabilityExample =
  example_description :: string
  example_parameters :: "jsval js_record"
  expectedResult :: "jsval option"
  executionTime :: "jsnum option"

text \<open>
  A \<^verbatim>\<open>Date\<close> holds a time value in milliseconds since the epoch, or is an invalid
  date.
\<close>

datatype js_date = InvalidDate | Date int

record SemanTestCapabilityProps =
  cap_id :: string
  cap_name :: string
  cap_type :: CapabilityType
  cap_description :: string
  cap_selector :: selector
  cap_parameters :: "ParameterDefinition list option"
  cap_returnType :: "ReturnTypeDefinition option"
  cap_validation :: "ValidationRules option"
  cap_timeout :: "jsnum option"
  cap_retries :: "jsnum option"
  cap_conditions :: "ExecutionCondition list option"
  cap_examples :: "CapabilityExample list option"
  cap_createdAt :: js_date
  cap_updatedAt :: js_date

text \<open>
  Modelled from the spec: the base class \<^verbatim>\<open>Entity\<close>, whose file \<^verbatim>\<open>entity.ts\<close> is
  not among the sources. The specification describes it as a container of the props that
  nothing mutates, with accessors that are projections of the stored fields: the
  constructor keeps the props it is given as \<^verbatim>\<open>this.props\<close>, and
  \<^verbatim>\<open>this.get(key)\<close> is \<^verbatim>\<open>this.props[key]\<close>. So an entity is its record of props,
  and \<open>get\<close> applies the selector of the field.
\<close>

definition get :: "'props \<Rightarrow> ('props \<Rightarrow> 'a) \<Rightarrow> 'a" where
  [simp]: "get this key = key this"

text \<open>
  The accessors of \<^verbatim>\<open>SemanTestCapability\<close>; \<^verbatim>\<open>x || []\<close> on an optional array. The
  getters that only return a field (\<^verbatim>\<open>getId()\<close>, \<^verbatim>\<open>getName()\<close>, ...) are the
  selectors of the record.
\<close>

definition getPrimarySelector :: "SemanTestCapabilityProps \<Rightarrow> string" where
  "getPrimarySelector c =
     (case get c cap_selector of SelectorString s \<Rightarrow> s | SelectorObject d \<Rightarrow> primary d)"

definition getFallbackSelectors :: "SemanTestCapabilityProps \<Rightarrow> string list" where
  "getFallbackSelectors c =
     (case get c cap_selector of
        SelectorString s \<Rightarrow> []
      | SelectorObject d \<Rightarrow> (case fallback d of None \<Rightarrow> [] | Some fs \<Rightarrow> fs))"

definition getAllSelectors :: "SemanTestCapabilityProps \<Rightarrow> string list" where
  "getAllSelectors c = getPrimarySelector c # getFallbackSelectors c"

definition getParameters :: "SemanTestCapabilityProps \<Rightarrow> ParameterDefinition list" where
  "getParameters c = (case get c cap_parameters of None \<Rightarrow> [] | Some ps \<Rightarrow> ps)"

definition getRequiredParameters :: "SemanTestCapabilityProps \<Rightarrow> ParameterDefinition list" where
  "getRequiredParameters c = filter (\<lambda>param. param_required param = Some True) (getParameters c)"

definition getOptionalParameters :: "SemanTestCapabilityProps \<Rightarrow> ParameterDefinition list" where
  "getOptionalParameters c = filter (\<lambda>param. param_required param \<noteq> Some True) (getParameters c)"

definition getParameter :: "SemanTestCapabilityProps \<Rightarrow> string \<Rightarrow> ParameterDefinition option" where
  "getParameter c n = find (\<lambda>param. param_name param = n) (getParameters c)"

definition hasParameter :: "SemanTestCapabilityProps \<Rightarrow> string \<Rightarrow> bool" where
  "hasParameter c n = list_ex (\<lambda>param. param_name param = n) (getParameters c)"

definition getConditions :: "SemanTestCapabilityProps \<Rightarrow> ExecutionCondition list" where
  "getConditions c = (case get c cap_conditions of None \<Rightarrow> [] | Some cs \<Rightarrow> cs)"

definition getExamples :: "SemanTestCapabilityProps \<Rightarrow> CapabilityExample list" where
  "getExamples c = (case get c cap_examples of None \<Rightarrow> [] | Some es \<Rightarrow> es)"

definition requiresParameters :: "SemanTestCapabilityProps \<Rightarrow> bool" where
  "requiresParameters c \<longleftrightarrow> length (getRequiredParameters c) > 0"

subsection \<open>\<^verbatim>\<open>validateParameters\<close>\<close>

text \<open>
  The report \<^verbatim>\<open>{ valid, errors, warnings }\<close> that \<^verbatim>\<open>validateParameters\<close> returns;
  \<^verbatim>\<open>CapabilityValidationResult\<close> and \<^verbatim>\<open>ValidationResult\<close> add the timestamp.
\<close>

record ParametersReport =
  valid :: bool
  errors :: "string list"
  warnings :: "string list"

record ValidationResult = ParametersReport +
  timestamp :: js_date

type_synonym CapabilityValidationResult = ValidationResult

text \<open>
  The regular expressions are the host's: \<^verbatim>\<open>new RegExp(p)\<close> either throws a
  \<^verbatim>\<open>SyntaxError\<close> (\<open>Inl\<close> its message) or gives a matcher, whose \<^verbatim>\<open>test\<close> is the
  function returned. Every function below that can reach a pattern takes the engine as
  its first argument.
\<close>

type_synonym regexp_engine = "string \<Rightarrow> string + (string \<Rightarrow> bool)"

definition quote :: "string \<Rightarrow> string" where
  "quote s = [CHR 0x27] @ s @ [CHR 0x27]"

text \<open>The loop over \<^verbatim>\<open>getRequiredParameters()\<close> (lines 370-375).\<close>

fun required_loop :: "jsval js_record \<Rightarrow> ParameterDefinition list \<Rightarrow> string list \<Rightarrow> string list" where
  "required_loop parameters [] errs = errs"
| "required_loop parameters (requiredParam # rest) errs =
     required_loop parameters rest
       (if \<not> has_property (param_name requiredParam) parameters
        then errs @ [''Required parameter '' @ quote (param_name requiredParam) @ '' is missing'']
        else errs)"

text \<open>Type validation (lines 386-394).\<close>

definition type_validation :: "string \<Rightarrow> ParameterDefinition \<Rightarrow> jsval \<Rightarrow> string list \<Rightarrow> string list" where
  "type_validation paramName paramDef paramValue errs =
     (let expectedType = param_type paramDef;
          actualType = typeof paramValue
      in if expectedType = ''array'' \<and> \<not> isArray paramValue
         then errs @ [''Parameter '' @ quote paramName @ '' expected array, got '' @ actualType]
         else if expectedType \<noteq> ''array'' \<and> actualType \<noteq> expectedType
         then errs @ [''Parameter '' @ quote paramName @ '' expected '' @ expectedType @ '', got '' @ actualType]
         else errs)"

text \<open>
  The rules for a string value (lines 400-410), one definition for each \<^verbatim>\<open>if\<close>.
  \<^verbatim>\<open>validation.minLength && ...\<close> tests the bound for truthiness, and so does
  \<^verbatim>\<open>validation.pattern && ...\<close>: the empty string is falsy.
\<close>

definition minLength_rule :: "string \<Rightarrow> string \<Rightarrow> ParameterValidation \<Rightarrow> string list \<Rightarrow> string list" where
  "minLength_rule paramName s validation errs =
     (case minLength validation of
        None \<Rightarrow> errs
      | Some n \<Rightarrow>
          if truthy_number n \<and> less_number (Fin (int (length s))) n
          then errs @ [''Parameter '' @ quote paramName @ '' must be at least '' @
                       number_to_string n @ '' characters'']
          else errs)"

definition maxLength_rule :: "string \<Rightarrow> string \<Rightarrow> ParameterValidation \<Rightarrow> string list \<Rightarrow> string list" where
  "maxLength_rule paramName s validation errs =
     (case maxLength validation of
        None \<Rightarrow> errs
      | Some n \<Rightarrow>
          if truthy_number n \<and> less_number n (Fin (int (length s)))
          then errs @ [''Parameter '' @ quote paramName @ '' must be at most '' @
                       number_to_string n @ '' characters'']
          else errs)"

definition pattern_rule ::
  "regexp_engine \<Rightarrow> string \<Rightarrow> string \<Rightarrow> ParameterValidation \<Rightarrow> string list \<Rightarrow> js_error + string list" where
  "pattern_rule re paramName s validation errs =
     (case pattern validation of
        None \<Rightarrow> Inr errs
      | Some p \<Rightarrow>
          if p = [] then Inr errs
          else (case re p of
                  Inl m \<Rightarrow> Inl (SyntaxError m)
                | Inr test \<Rightarrow>
                    if \<not> test s
                    then Inr (errs @ [''Parameter '' @ quote paramName @
                                      '' does not match required pattern''])
                    else Inr errs))"

fun string_rules ::
  "regexp_engine \<Rightarrow> string \<Rightarrow> jsval \<Rightarrow> ParameterValidation \<Rightarrow> string list \<Rightarrow> js_error + string list" where
  "string_rules re paramName (JString s) validation errs =
     pattern_rule re paramName s validation
       (maxLength_rule paramName s validation (minLength_rule paramName s validation errs))"
| "string_rules re paramName paramValue validation errs = Inr errs"

text \<open>
  The rules for a number (lines 412-419): here the bounds are tested with
  \<^verbatim>\<open>!== undefined\<close>.
\<close>

definition minimum_rule :: "string \<Rightarrow> jsnum \<Rightarrow> ParameterValidation \<Rightarrow> string list \<Rightarrow> string list" where
  "minimum_rule paramName x validation errs =
     (case minimum validation of
        None \<Rightarrow> errs
      | Some m \<Rightarrow>
          if less_number x m
          then errs @ [''Parameter '' @ quote paramName @ '' must be at least '' @
                       number_to_string m]
          else errs)"

definition maximum_rule :: "string \<Rightarrow> jsnum \<Rightarrow> ParameterValidation \<Rightarrow> string list \<Rightarrow> string list" where
  "maximum_rule paramName x validation errs =
     (case maximum validation of
        None \<Rightarrow> errs
      | Some m \<Rightarrow>
          if less_number m x
          then errs @ [''Parameter '' @ quote paramName @ '' must be at most '' @
                       number_to_string m]
          else errs)"

fun number_rules :: "string \<Rightarrow> jsval \<Rightarrow> ParameterValidation \<Rightarrow> string list \<Rightarrow> string list" where
  "number_rules paramName (JNumber x) validation errs =
     maximum_rule paramName x validation (minimum_rule paramName x validation errs)"
| "number_rules paramName paramValue validation errs = errs"

text \<open>The \<^verbatim>\<open>enum\<close> rule (lines 421-423); an array is truthy, also when empty.\<close>

definition enum_rule :: "string \<Rightarrow> jsval \<Rightarrow> ParameterValidation \<Rightarrow> string list \<Rightarrow> js_error + string list" where
  "enum_rule paramName paramValue validation errs =
     (case enum' validation of
        None \<Rightarrow> Inr errs
      | Some allowed \<Rightarrow>
          if paramValue \<notin> set allowed
          then (case join '', '' allowed of
                  Inl e \<Rightarrow> Inl e
                | Inr listed \<Rightarrow>
                    Inr (errs @ [''Parameter '' @ quote paramName @ '' must be one of: '' @ listed]))
          else Inr errs)"

text \<open>The block under \<^verbatim>\<open>if (paramDef.validation)\<close> (lines 397-424).\<close>

definition validation_rules ::
  "regexp_engine \<Rightarrow> string \<Rightarrow> jsval \<Rightarrow> ParameterDefinition \<Rightarrow> string list \<Rightarrow> js_error + string list" where
  "validation_rules re paramName paramValue paramDef errs =
     (case param_validation paramDef of
        None \<Rightarrow> Inr errs
      | Some validation \<Rightarrow>
          (case string_rules re paramName paramValue validation errs of
             Inl e \<Rightarrow> Inl e
           | Inr errs1 \<Rightarrow>
               enum_rule paramName paramValue validation
                 (number_rules paramName paramValue validation errs1)))"

text \<open>
  The loop over \<^verbatim>\<open>Object.entries(parameters)\<close> (lines 378-425), on the pair of
  \<^verbatim>\<open>errors\<close> and \<^verbatim>\<open>warnings\<close>. An exception leaves the loop and the function.
\<close>

fun provided_loop ::
  "regexp_engine \<Rightarrow> SemanTestCapabilityProps \<Rightarrow> jsval js_record \<Rightarrow> string list \<times> string list
     \<Rightarrow> js_error + string list \<times> string list" where
  "provided_loop re c [] (errs, warns) = Inr (errs, warns)"
| "provided_loop re c ((paramName, paramValue) # rest) (errs, warns) =
     (case getParameter c paramName of
        None \<Rightarrow>
          provided_loop re c rest
            (errs, warns @ [''Unknown parameter '' @ quote paramName @ '' provided''])
      | Some paramDef \<Rightarrow>
          (case validation_rules re paramName paramValue paramDef
                  (type_validation paramName paramDef paramValue errs) of
             Inl e \<Rightarrow> Inl e
           | Inr errs' \<Rightarrow> provided_loop re c rest (errs', warns)))"

definition validateParameters ::
  "regexp_engine \<Rightarrow> SemanTestCapabilityProps \<Rightarrow> jsval js_record \<Rightarrow> js_error + ParametersReport" where
  "validateParameters re c parameters =
     (case provided_loop re c parameters
             (required_loop parameters (getRequiredParameters c) [], []) of
        Inl e \<Rightarrow> Inl e
      | Inr (errs, warns) \<Rightarrow>
          Inr \<lparr> valid = (length errs = 0), errors = errs, warnings = warns \<rparr>)"

subsection \<open>\<^verbatim>\<open>SemanTestCapability.validate\<close>\<close>

text \<open>
  \<^verbatim>\<open>s.trim()\<close> drops white space and line terminators at both ends (here those
  among the code units below 256), and \<^verbatim>\<open>s.includes(sub)\<close> looks for \<open>sub\<close> at
  every position.
\<close>

definition is_white_space :: "char \<Rightarrow> bool" where
  "is_white_space ch \<longleftrightarrow>
     ch \<in> set [CHR 0x09, CHR 0x0A, CHR 0x0B, CHR 0x0C, CHR 0x0D, CHR 0x20, CHR 0xA0]"

definition trim :: "string \<Rightarrow> string" where
  "trim s = rev (dropWhile is_white_space (rev (dropWhile is_white_space s)))"

fun includes_string :: "string \<Rightarrow> string \<Rightarrow> bool" where
  "includes_string [] sub = (sub = [])"
| "includes_string (x # xs) sub = (take (length sub) (x # xs) = sub \<or> includes_string xs sub)"

text \<open>
  \<^verbatim>\<open>isValidCSSSelector\<close> (lines 516-525). Its \<^verbatim>\<open>catch\<close>, and the one around the
  selector checks of \<^verbatim>\<open>validate\<close>, guard operations on strings that do not throw.
\<close>

definition isValidCSSSelector :: "string \<Rightarrow> bool" where
  "isValidCSSSelector selector \<longleftrightarrow>
     length (trim selector) > 0 \<and> \<not> includes_string selector ''><'' \<and> \<not> includes_string selector ''<<''"

text \<open>The loop over the fallback selectors (lines 465-470).\<close>

fun fallback_loop :: "string list \<Rightarrow> string list \<Rightarrow> string list" where
  "fallback_loop [] warns = warns"
| "fallback_loop (selector # rest) warns =
     fallback_loop rest
       (if \<not> isValidCSSSelector selector
        then warns @ [''Fallback selector '' @ quote selector @ '' may not be valid CSS'']
        else warns)"

text \<open>
  The loop over the parameters (lines 476-490); \<open>paramNames\<close> is the
  \<^verbatim>\<open>Set<string>\<close> of the names seen so far.
\<close>

fun parameters_loop :: "ParameterDefinition list \<Rightarrow> string list \<Rightarrow> string list \<Rightarrow> string list" where
  "parameters_loop [] paramNames errs = errs"
| "parameters_loop (param # rest) paramNames errs =
     (let errs1 = (if param_name param \<in> set paramNames
                   then errs @ [''Duplicate parameter name: '' @ param_name param]
                   else errs);
          errs2 = (if param_name param = []
                   then errs1 @ [''Parameter name is required'']
                   else errs1);
          errs3 = (if param_type param = []
                   then errs2 @ [''Parameter '' @ quote (param_name param) @ '' type is required'']
                   else errs2)
      in parameters_loop rest (param_name param # paramNames) errs3)"

text \<open>
  The loop over \<^verbatim>\<open>getExamples().entries()\<close> (lines 493-503). The call of
  \<^verbatim>\<open>validateParameters\<close> stands in no \<^verbatim>\<open>try\<close>: what it throws leaves the loop
  and \<^verbatim>\<open>validate\<close>.
\<close>

fun examples_loop ::
  "regexp_engine \<Rightarrow> SemanTestCapabilityProps \<Rightarrow> CapabilityExample list \<Rightarrow> nat
     \<Rightarrow> string list \<times> string list \<Rightarrow> js_error + string list \<times> string list" where
  "examples_loop re c [] index (errs, warns) = Inr (errs, warns)"
| "examples_loop re c (example # rest) index (errs, warns) =
     (let warns1 = (if example_description example = []
                    then warns @ [''Example '' @ digits (index + 1) @ '' is missing description'']
                    else warns)
      in case validateParameters re c (example_parameters example) of
           Inl e \<Rightarrow> Inl e
         | Inr paramValidation \<Rightarrow>
             examples_loop re c rest (index + 1)
               (if \<not> valid paramValidation
                then errs @ [''Example '' @ digits (index + 1) @ '': '' @
                             join_strings '', '' (errors paramValidation)]
                else errs,
                warns1))"

text \<open>
  \<^verbatim>\<open>validate()\<close> (lines 437-511); \<open>now\<close> is what \<^verbatim>\<open>new Date()\<close> reads when the
  result is built.
\<close>

definition validate ::
  "regexp_engine \<Rightarrow> int \<Rightarrow> SemanTestCapabilityProps \<Rightarrow> js_error + CapabilityValidationResult" where
  "validate re now c =
     (let errs1 = (if cap_id c = [] then [''Capability ID is required''] else []);
          errs2 = (if cap_name c = [] then errs1 @ [''Capability name is required''] else errs1);
          errs3 = (if cap_description c = []
                   then errs2 @ [''Capability description is required''] else errs2);
          errs4 = (if getPrimarySelector c = []
                   then errs3 @ [''Primary selector is required''] else errs3);
          primarySelector = getPrimarySelector c;
          warns1 = (if primarySelector \<noteq> [] \<and> \<not> isValidCSSSelector primarySelector
                    then [''Primary selector may not be valid CSS''] else []);
          warns2 = fallback_loop (getFallbackSelectors c) warns1;
          errs5 = parameters_loop (getParameters c) [] errs4
      in case examples_loop re c (getExamples c) 0 (errs5, warns2) of
           Inl e \<Rightarrow> Inl e
         | Inr (errs, warns) \<Rightarrow>
             Inr \<lparr> valid = (length errs = 0), errors = errs, warnings = warns,
                   timestamp = Date now \<rparr>)"

section \<open>Contract\<close>

datatype ErrorStrategy = Abort | Continue | Retry | Fallback

record RetryConfiguration =
  attempts :: jsnum
  delay :: jsnum

record ErrorHandling =
  strategy :: ErrorStrategy
  maxRetries :: "jsnum option"
  fallbackCapability :: "string option"

record WorkflowStep =
  capability :: string
  step_parameters :: "jsval js_record option"
  step_condition :: "ExecutionCondition option"
  onSuccess :: "string option"
  onFailure :: "string option"
  retry :: "RetryConfiguration option"

record WorkflowDefinition =
  workflow_description :: string
  workflow_parameters :: "ParameterDefinition list option"
  steps :: "WorkflowStep list"
  errorHandling :: "ErrorHandling option"

record ContractMetadata =
  author :: "string option"
  tags :: "string list option"
  compatibilityScore :: "jsnum option"
  validationResults :: "ValidationResult list option"

text \<open>
  The props of a contract. The two records keyed by name are objects that
  \<^verbatim>\<open>withCapability\<close>, \<^verbatim>\<open>withoutCapability\<close> and \<^verbatim>\<open>withWorkflow\<close> copy and then
  write to, so a contract in the store holds them by reference
  (\<open>SemanTestContract\<close>, below); \<open>SemanTestContractProps\<close> is the contract with the two
  records read out of the store, which is all \<^verbatim>\<open>validate\<close> looks at.
\<close>

record ('caps, 'wfs) contract_props =
  contract_id :: string
  version :: string
  domain :: string
  title :: string
  contract_description :: "string option"
  capabilities :: 'caps
  workflows :: "'wfs option"
  metadata :: "ContractMetadata option"
  createdAt :: js_date
  updatedAt :: js_date

type_synonym SemanTestContractProps =
  "(SemanTestCapabilityProps js_record, WorkflowDefinition js_record) contract_props"

definition getCapabilityNames :: "SemanTestContractProps \<Rightarrow> string list" where
  "getCapabilityNames c = map fst (get c capabilities)"

text \<open>\<^verbatim>\<open>hasCapability\<close> is \<^verbatim>\<open>name in this.get('capabilities')\<close> (lines 820-822).\<close>

definition hasCapability :: "SemanTestContractProps \<Rightarrow> string \<Rightarrow> bool" where
  "hasCapability c n \<longleftrightarrow> has_property n (get c capabilities)"

text \<open>
  The loop over the capabilities (lines 944-956): the \<^verbatim>\<open>catch\<close> turns what
  \<^verbatim>\<open>capability.validate()\<close> throws into an error of the contract. The timestamp of a
  capability's report is not used, so one reading of the clock serves every call.
\<close>

fun capabilities_loop ::
  "regexp_engine \<Rightarrow> int \<Rightarrow> SemanTestCapabilityProps js_record \<Rightarrow> string list \<times> string list
     \<Rightarrow> string list \<times> string list" where
  "capabilities_loop re now [] (errs, warns) = (errs, warns)"
| "capabilities_loop re now ((n, cap) # rest) (errs, warns) =
     capabilities_loop re now rest
       (case validate re now cap of
          Inl error \<Rightarrow> (errs @ [''Capability '' @ quote n @ '': '' @ message error], warns)
        | Inr capabilityValidation \<Rightarrow>
            (if \<not> valid capabilityValidation
             then errs @ [''Capability '' @ quote n @ '': '' @
                          join_strings '', '' (errors capabilityValidation)]
             else errs,
             if length (warnings capabilityValidation) > 0
             then warns @ [''Capability '' @ quote n @ '': '' @
                           join_strings '', '' (warnings capabilityValidation)]
             else warns))"

text \<open>The loops over the workflows and their steps (lines 961-967).\<close>

fun steps_loop :: "SemanTestContractProps \<Rightarrow> string \<Rightarrow> WorkflowStep list \<Rightarrow> string list \<Rightarrow> string list" where
  "steps_loop c n [] errs = errs"
| "steps_loop c n (step # rest) errs =
     steps_loop c n rest
       (if \<not> hasCapability c (capability step)
        then errs @ [''Workflow '' @ quote n @ '' references unknown capability '' @
                     quote (capability step)]
        else errs)"

fun workflows_loop :: "SemanTestContractProps \<Rightarrow> WorkflowDefinition js_record \<Rightarrow> string list \<Rightarrow> string list" where
  "workflows_loop c [] errs = errs"
| "workflows_loop c ((n, workflow) # rest) errs =
     workflows_loop c rest (steps_loop c n (steps workflow) errs)"

text \<open>\<^verbatim>\<open>SemanTestContract.validate()\<close> (lines 916-976).\<close>

definition contract_validate :: "regexp_engine \<Rightarrow> int \<Rightarrow> SemanTestContractProps \<Rightarrow> ValidationResult" where
  "contract_validate re now c =
     (let errs1 = (if contract_id c = [] then [''Contract ID is required''] else []);
          errs2 = (if version c = [] then errs1 @ [''Contract version is required''] else errs1);
          errs3 = (if domain c = [] then errs2 @ [''Contract domain is required''] else errs2);
          errs4 = (if title c = [] then errs3 @ [''Contract title is required''] else errs3);
          warns1 = (if length (map fst (capabilities c)) = 0
                    then [''Contract has no capabilities defined''] else []);
          (errs5, warns2) = capabilities_loop re now (capabilities c) (errs4, warns1);
          errs6 = (case workflows c of
                     None \<Rightarrow> errs5
                   | Some ws \<Rightarrow> workflows_loop c ws errs5)
      in \<lparr> valid = (length errs6 = 0), errors = errs6, warnings = warns2,
            timestamp = Date now \<rparr>)"

subsection \<open>The \<^verbatim>\<open>with\<close> operations\<close>

text \<open>
  Writing and deleting a property of an ordinary object. The own keys that are array
  indices (canonical numerals below \<open>2^32 - 1\<close>) come first, in ascending order, and the
  other keys follow in the order of their creation. A write to an existing own property
  keeps its place. A write to \<^verbatim>\<open>__proto__\<close>, when the object has no own property of
  that name, reaches the setter inherited from \<^verbatim>\<open>Object.prototype\<close> and creates no
  own property (it replaces the prototype, which the model does not record).
\<close>

definition nat_of_digits :: "string \<Rightarrow> nat" where
  "nat_of_digits s = foldl (\<lambda>acc ch. 10 * acc + (of_char ch - 48)) 0 s"

definition is_array_index :: "string \<Rightarrow> bool" where
  "is_array_index k \<longleftrightarrow> k \<noteq> [] \<and> digits (nat_of_digits k) = k \<and> nat_of_digits k < 4294967295"

fun insert_array_index :: "string \<Rightarrow> 'v \<Rightarrow> 'v js_record \<Rightarrow> 'v js_record" where
  "insert_array_index k v [] = [(k, v)]"
| "insert_array_index k v ((k', v') # rest) =
     (if is_array_index k' \<and> nat_of_digits k' < nat_of_digits k
      then (k', v') # insert_array_index k v rest
      else (k, v) # (k', v') # rest)"

definition assign_property :: "'v js_record \<Rightarrow> string \<Rightarrow> 'v \<Rightarrow> 'v js_record" where
  "assign_property obj k v =
     (if k \<in> set (map fst obj) then map (\<lambda>(k', v'). if k' = k then (k', v) else (k', v')) obj
      else if k = ''__proto__'' then obj
      else if is_array_index k then insert_array_index k v obj
      else obj @ [(k, v)])"

definition delete_property :: "'v js_record \<Rightarrow> string \<Rightarrow> 'v js_record" where
  "delete_property obj k = filter (\<lambda>(k', v'). k' \<noteq> k) obj"

text \<open>
  The store holds the records keyed by name; a reference is an index into it, and a new
  object goes to the end. A contract in the store holds references to its two records.
\<close>

record heap =
  capability_records :: "SemanTestCapabilityProps js_record list"
  workflow_records :: "WorkflowDefinition js_record list"

type_synonym SemanTestContract = "(nat, nat) contract_props"

definition capabilities_at :: "heap \<Rightarrow> nat \<Rightarrow> SemanTestCapabilityProps js_record" where
  "capabilities_at h r = (if r < length (capability_records h) then capability_records h ! r else [])"

definition workflows_at :: "heap \<Rightarrow> nat \<Rightarrow> WorkflowDefinition js_record" where
  "workflows_at h r = (if r < length (workflow_records h) then workflow_records h ! r else [])"

text \<open>\<^verbatim>\<open>this.props\<close> with the two records read out of the store.\<close>

definition props :: "heap \<Rightarrow> SemanTestContract \<Rightarrow> SemanTestContractProps" where
  "props h this =
     \<lparr> contract_id = contract_id this, version = version this, domain = domain this,
       title = title this, contract_description = contract_description this,
       capabilities = capabilities_at h (capabilities this),
       workflows = map_option (workflows_at h) (workflows this),
       metadata = metadata this, createdAt = createdAt this, updatedAt = updatedAt this \<rparr>"

text \<open>
  \<^verbatim>\<open>withCapability\<close> (lines 863-872): the spread \<^verbatim>\<open>{ ...this.get('capabilities') }\<close>
  allocates a copy, the assignment writes to the copy, and the new contract takes the
  fields of \<^verbatim>\<open>this.props\<close> with the two named ones replaced. \<open>now\<close> is what
  \<^verbatim>\<open>new Date()\<close> reads.
\<close>

definition withCapability ::
  "int \<Rightarrow> heap \<Rightarrow> SemanTestContract \<Rightarrow> string \<Rightarrow> SemanTestCapabilityProps \<Rightarrow> heap \<times> SemanTestContract" where
  "withCapability now h this n cap =
     (let r = length (capability_records h);
          h1 = h\<lparr> capability_records := capability_records h @ [capabilities_at h (get this capabilities)] \<rparr>;
          h2 = h1\<lparr> capability_records :=
                      (capability_records h1)[r := assign_property (capabilities_at h1 r) n cap] \<rparr>
      in (h2, this\<lparr> capabilities := r, updatedAt := Date now \<rparr>))"

text \<open>\<^verbatim>\<open>withoutCapability\<close> (lines 877-886).\<close>

definition withoutCapability ::
  "int \<Rightarrow> heap \<Rightarrow> SemanTestContract \<Rightarrow> string \<Rightarrow> heap \<times> SemanTestContract" where
  "withoutCapability now h this n =
     (let r = length (capability_records h);
          h1 = h\<lparr> capability_records := capability_records h @ [capabilities_at h (get this capabilities)] \<rparr>;
          h2 = h1\<lparr> capability_records :=
                      (capability_records h1)[r := delete_property (capabilities_at h1 r) n] \<rparr>
      in (h2, this\<lparr> capabilities := r, updatedAt := Date now \<rparr>))"

text \<open>\<^verbatim>\<open>withMetadata\<close> (lines 891-897).\<close>

definition withMetadata ::
  "int \<Rightarrow> heap \<Rightarrow> SemanTestContract \<Rightarrow> ContractMetadata \<Rightarrow> heap \<times> SemanTestContract" where
  "withMetadata now h this m = (h, this\<lparr> metadata := Some m, updatedAt := Date now \<rparr>)"

text \<open>
  \<^verbatim>\<open>withWorkflow\<close> (lines 902-911); spreading \<^verbatim>\<open>undefined\<close> gives the empty
  object.
\<close>

definition withWorkflow ::
  "int \<Rightarrow> heap \<Rightarrow> SemanTestContract \<Rightarrow> string \<Rightarrow> WorkflowDefinition \<Rightarrow> heap \<times> SemanTestContract" where
  "withWorkflow now h this n workflow =
     (let r = length (workflow_records h);
          h1 = h\<lparr> workflow_records := workflow_records h @
                      [case get this workflows of None \<Rightarrow> [] | Some w \<Rightarrow> workflows_at h w] \<rparr>;
          h2 = h1\<lparr> workflow_records :=
                      (workflow_records h1)[r := assign_property (workflows_at h1 r) n workflow] \<rparr>
      in (h2, this\<lparr> workflows := Some r, updatedAt := Date now \<rparr>))"

section \<open>Serialization of a capability\<close>

text \<open>
  The object \<^verbatim>\<open>toJSON()\<close> builds (lines 530-547) and \<^verbatim>\<open>fromJSON\<close> reads (lines
  552-569): the fields of the props, with the two dates as strings.

  The two conversions of a date are the host's and are parameters here:
  \<open>toISOString\<close> gives the ISO-8601 text of the time value of a valid date, and
  \<open>parse\<close> is \<^verbatim>\<open>new Date(string)\<close>. On an invalid date \<^verbatim>\<open>toISOString()\<close> throws a
  \<^verbatim>\<open>RangeError\<close>.
\<close>

record CapabilityJSON =
  json_id :: string
  json_name :: string
  json_type :: CapabilityType
  json_description :: string
  json_selector :: selector
  json_parameters :: "ParameterDefinition list option"
  json_returnType :: "ReturnTypeDefinition option"
  json_validation :: "ValidationRules option"
  json_timeout :: "jsnum option"
  json_retries :: "jsnum option"
  json_conditions :: "ExecutionCondition list option"
  json_examples :: "CapabilityExample list option"
  json_createdAt :: string
  json_updatedAt :: string

definition date_toISOString :: "(int \<Rightarrow> string) \<Rightarrow> js_date \<Rightarrow> js_error + string" where
  "date_toISOString toISOString d =
     (case d of
        InvalidDate \<Rightarrow> Inl (RangeError ''Invalid time value'')
      | Date t \<Rightarrow> Inr (toISOString t))"

definition toJSON :: "(int \<Rightarrow> string) \<Rightarrow> SemanTestCapabilityProps \<Rightarrow> js_error + CapabilityJSON" where
  "toJSON toISOString c =
     (case date_toISOString toISOString (cap_createdAt c) of
        Inl e \<Rightarrow> Inl e
      | Inr created \<Rightarrow>
          (case date_toISOString toISOString (cap_updatedAt c) of
             Inl e \<Rightarrow> Inl e
           | Inr updated \<Rightarrow>
               Inr \<lparr> json_id = cap_id c, json_name = cap_name c, json_type = cap_type c,
                     json_description = cap_description c, json_selector = cap_selector c,
                     json_parameters = Some (getParameters c),
                     json_returnType = cap_returnType c, json_validation = cap_validation c,
                     json_timeout = cap_timeout c, json_retries = cap_retries c,
                     json_conditions = Some (getConditions c),
                     json_examples = Some (getExamples c),
                     json_createdAt = created, json_updatedAt = updated \<rparr>))"

definition fromJSON :: "(string \<Rightarrow> js_date) \<Rightarrow> CapabilityJSON \<Rightarrow> SemanTestCapabilityProps" where
  "fromJSON parse json =
     \<lparr> cap_id = json_id json, cap_name = json_name json, cap_type = json_type json,
       cap_description = json_description json, cap_selector = json_selector json,
       cap_parameters = json_parameters json, cap_returnType = json_returnType json,
       cap_validation = json_validation json, cap_timeout = json_timeout json,
       cap_retries = json_retries json, cap_conditions = json_conditions json,
       cap_examples = json_examples json,
       cap_createdAt = parse (json_createdAt json),
       cap_updatedAt = parse (json_updatedAt json) \<rparr>"

section \<open>Messages and sample data\<close>

text \<open>The texts of the errors, as the template literals of the source build them.\<close>

definition required_message :: "string \<Rightarrow> string" where
  "required_message n = ''Required parameter '' @ quote n @ '' is missing''"

definition type_mismatch_message :: "string \<Rightarrow> string \<Rightarrow> string \<Rightarrow> string" where
  "type_mismatch_message k expected actual =
     ''Parameter '' @ quote k @ '' expected '' @ expected @ '', got '' @ actual"

definition unknown_capability_message :: "string \<Rightarrow> string \<Rightarrow> string" where
  "unknown_capability_message workflow n =
     ''Workflow '' @ quote workflow @ '' references unknown capability '' @ quote n"

text \<open>The errors of the loop over the provided arguments all begin alike.\<close>

definition parameter_message :: "string \<Rightarrow> bool" where
  "parameter_message m \<longleftrightarrow> take 10 m = ''Parameter ''"

text \<open>
  The factory \<^verbatim>\<open>SemanTestCapability.create\<close> (lines 146-180); \<^verbatim>\<open>options?.x\<close> is
  \<^verbatim>\<open>undefined\<close> when there are no options.
\<close>

record CapabilityOptions =
  options_parameters :: "ParameterDefinition list option"
  options_returnType :: "ReturnTypeDefinition option"
  options_validation :: "ValidationRules option"
  options_timeout :: "jsnum option"
  options_retries :: "jsnum option"
  options_conditions :: "ExecutionCondition list option"
  options_examples :: "CapabilityExample list option"

definition create ::
  "int \<Rightarrow> string \<Rightarrow> string \<Rightarrow> CapabilityType \<Rightarrow> string \<Rightarrow> selector \<Rightarrow> CapabilityOptions option
     \<Rightarrow> SemanTestCapabilityProps" where
  "create now i n t d sel options =
     \<lparr> cap_id = i, cap_name = n, cap_type = t, cap_description = d, cap_selector = sel,
       cap_parameters = Option.bind options options_parameters,
       cap_returnType = Option.bind options options_returnType,
       cap_validation = Option.bind options options_validation,
       cap_timeout = Option.bind options options_timeout,
       cap_retries = Option.bind options options_retries,
       cap_conditions = Option.bind options options_conditions,
       cap_examples = Option.bind options options_examples,
       cap_createdAt = Date now, cap_updatedAt = Date now \<rparr>"

text \<open>
  Sample data. \<open>parameter n t req validation\<close> is the definition
  \<^verbatim>\<open>{ name: n, type: t, required: req, validation }\<close>, and \<open>with_parameters\<close> the
  options \<^verbatim>\<open>{ parameters, examples }\<close>.
\<close>

definition parameter :: "string \<Rightarrow> string \<Rightarrow> bool \<Rightarrow> ParameterValidation option \<Rightarrow> ParameterDefinition" where
  "parameter n t req validation =
     \<lparr> param_name = n, param_type = t, param_description = None, param_required = Some req,
       param_default = None, param_validation = validation, param_examples = None \<rparr>"

definition with_parameters ::
  "ParameterDefinition list \<Rightarrow> CapabilityExample list option \<Rightarrow> CapabilityOptions" where
  "with_parameters ps es =
     \<lparr> options_parameters = Some ps, options_returnType = None, options_validation = None,
       options_timeout = None, options_retries = None, options_conditions = None,
       options_examples = es \<rparr>"

definition no_validation :: ParameterValidation where
  "no_validation =
     \<lparr> minLength = None, maxLength = None, pattern = None, minimum = None, maximum = None,
       enum' = None \<rparr>"

text \<open>
  An engine for the samples: it rejects the pattern \<^verbatim>\<open>(\<close>, an unterminated group,
  with the message of V8. No sample reaches another pattern.
\<close>

definition sample_engine :: regexp_engine where
  "sample_engine p =
     (if p = ''('' then Inl ''Invalid regular expression: /(/: Unterminated group''
      else Inr (\<lambda>s. True))"

text \<open>
  The scenario of the specification: the capability \<^verbatim>\<open>login\<close> of type
  \<^verbatim>\<open>action\<close> with selector \<^verbatim>\<open>#submit\<close> and the required string parameter
  \<^verbatim>\<open>user\<close>, in the contract \<^verbatim>\<open>c1\<close> with the workflow \<^verbatim>\<open>signIn\<close> of one
  step. The scenario gives the capability no id and no description, so they are
  arguments here, as is the capability the step names.
\<close>

definition login_capability :: "string \<Rightarrow> string \<Rightarrow> string \<Rightarrow> SemanTestCapabilityProps" where
  "login_capability i n d =
     create 0 i n Action d (SelectorString ''#submit'')
       (Some (with_parameters [parameter ''user'' ''string'' True None] None))"

definition step :: "string \<Rightarrow> WorkflowStep" where
  "step n =
     \<lparr> capability = n, step_parameters = None, step_condition = None, onSuccess = None,
       onFailure = None, retry = None \<rparr>"

definition login_contract :: "SemanTestCapabilityProps \<Rightarrow> string \<Rightarrow> SemanTestContractProps" where
  "login_contract cap n =
     \<lparr> contract_id = ''c1'', version = ''1.0'', domain = ''example.com'', title = ''Login'',
       contract_description = None,
       capabilities = [(''login'', cap)],
       workflows = Some [(''signIn'',
         \<lparr> workflow_description = [], workflow_parameters = None, steps = [step n],
           errorHandling = None \<rparr>)],
       metadata = None, createdAt = Date 0, updatedAt = Date 0 \<rparr>"


definition undescribed_capability :: SemanTestCapabilityProps where
  "undescribed_capability =
     create 0 ''logout'' ''logout'' Action [] (SelectorString ''#logout'') None"

text \<open>A capability with the one parameter \<open>p\<close> and no example.\<close>

definition one_parameter_capability :: "ParameterDefinition \<Rightarrow> SemanTestCapabilityProps" where
  "one_parameter_capability p =
     create 0 ''fill'' ''fill'' Form ''Fill the field'' (SelectorString ''#field'')
       (Some (with_parameters [p] None))"

text \<open>A capability with the two parameters \<open>p\<close> and \<open>q\<close>, in this order, and no example.\<close>

definition two_parameter_capability ::
  "ParameterDefinition \<Rightarrow> ParameterDefinition \<Rightarrow> SemanTestCapabilityProps" where
  "two_parameter_capability p q =
     create 0 ''fill'' ''fill'' Form ''Fill the field'' (SelectorString ''#field'')
       (Some (with_parameters [p, q] None))"

text \<open>
  What one pass of the loop over the provided arguments adds to \<^verbatim>\<open>errors\<close> for an
  argument that has a definition: the type validation, then the validation rules.
\<close>

definition entry_errors ::
  "regexp_engine \<Rightarrow> string \<Rightarrow> jsval \<Rightarrow> ParameterDefinition \<Rightarrow> js_error + string list" where
  "entry_errors re paramName paramValue paramDef =
     validation_rules re paramName paramValue paramDef
       (type_validation paramName paramDef paramValue [])"

text \<open>
  The parts of the error list of \<^verbatim>\<open>SemanTestContract.validate\<close>: what the four tests
  of the fields add, what the pass of the loop over the capabilities adds for one entry
  (the \<^verbatim>\<open>catch\<close> included), and what the loops over the workflows add.
\<close>

definition contract_field_errors :: "SemanTestContractProps \<Rightarrow> string list" where
  "contract_field_errors c =
     (if contract_id c = [] then [''Contract ID is required''] else []) @
     (if version c = [] then [''Contract version is required''] else []) @
     (if domain c = [] then [''Contract domain is required''] else []) @
     (if title c = [] then [''Contract title is required''] else [])"

definition capability_errors ::
  "regexp_engine \<Rightarrow> int \<Rightarrow> string \<times> SemanTestCapabilityProps \<Rightarrow> string list" where
  "capability_errors re now entry =
     (case validate re now (snd entry) of
        Inl error \<Rightarrow> [''Capability '' @ quote (fst entry) @ '': '' @ message error]
      | Inr capabilityValidation \<Rightarrow>
          if valid capabilityValidation then []
          else [''Capability '' @ quote (fst entry) @ '': '' @
                join_strings '', '' (errors capabilityValidation)])"

definition step_errors :: "SemanTestContractProps \<Rightarrow> string \<times> WorkflowDefinition \<Rightarrow> string list" where
  "step_errors c entry =
     map (\<lambda>st. unknown_capability_message (fst entry) (capability st))
       (filter (\<lambda>st. \<not> hasCapability c (capability st)) (steps (snd entry)))"

definition workflow_errors :: "SemanTestContractProps \<Rightarrow> string list" where
  "workflow_errors c =
     (case workflows c of None \<Rightarrow> [] | Some ws \<Rightarrow> concat (map (step_errors c) ws))"


text \<open>
  A contract lives in a store when its references point into it, and a store is kept by
  a later one when every object it holds is still there, unchanged.
\<close>

definition in_store :: "heap \<Rightarrow> SemanTestContract \<Rightarrow> bool" where
  "in_store h this \<longleftrightarrow>
     capabilities this < length (capability_records h) \<and>
     (case workflows this of None \<Rightarrow> True | Some w \<Rightarrow> w < length (workflow_records h))"

definition store_kept :: "heap \<Rightarrow> heap \<Rightarrow> bool" where
  "store_kept h h' \<longleftrightarrow>
     take (length (capability_records h)) (capability_records h') = capability_records h \<and>
     take (length (workflow_records h)) (workflow_records h') = workflow_records h"

text \<open>
  A store with one record of capabilities, and the contract \<^verbatim>\<open>c1\<close> that holds it and
  has no workflows.
\<close>

definition sample_store :: heap where
  "sample_store =
     \<lparr> capability_records =
         [ [(''login'', login_capability ''login-1'' ''login'' ''Log the user in'')] ],
       workflow_records = [] \<rparr>"

definition sample_contract :: SemanTestContract where
  "sample_contract =
     \<lparr> contract_id = ''c1'', version = ''1.0'', domain = ''example.com'', title = ''Login'',
       contract_description = None, capabilities = 0, workflows = None, metadata = None,
       createdAt = Date 0, updatedAt = Date 0 \<rparr>"

subsection \<open>The dates of the host\<close>

text \<open>
  The two conversions as ECMAScript defines them, for the samples and as an instance of
  the parameters of \<open>toJSON\<close> and \<open>fromJSON\<close>. \<open>Day\<close>, \<open>TimeWithinDay\<close>,
  \<open>DayFromYear\<close>, \<open>MakeDay\<close> and \<open>TimeClip\<close> are the abstract operations of the
  language specification; \<open>YearFromDay\<close> finds the year of a day number through the
  cycles of 400, 100 and 4 years that begin with 1601.
\<close>

definition Day :: "int \<Rightarrow> int" where
  "Day t = t div 86400000"

definition TimeWithinDay :: "int \<Rightarrow> int" where
  "TimeWithinDay t = t mod 86400000"

definition DayFromYear :: "int \<Rightarrow> int" where
  "DayFromYear y =
     365 * (y - 1970) + (y - 1969) div 4 - (y - 1901) div 100 + (y - 1601) div 400"

definition InLeapYear :: "int \<Rightarrow> bool" where
  "InLeapYear y =
     (if y mod 400 = 0 then True else if y mod 100 = 0 then False else y mod 4 = 0)"

definition YearFromDay :: "int \<Rightarrow> int" where
  "YearFromDay d =
     (let n = d + 134774;
          a = n div 146097;
          r = n mod 146097;
          b = min (r div 36524) 3;
          r1 = r - 36524 * b;
          c = r1 div 1461;
          r2 = r1 mod 1461;
          e = min (r2 div 365) 3
      in 1601 + 400 * a + 100 * b + 4 * c + e)"

text \<open>The day within the year on which month \<open>m\<close> (from 0) begins.\<close>

definition month_start :: "bool \<Rightarrow> nat \<Rightarrow> int" where
  "month_start leap m =
     [0, 31, 59, 90, 120, 151, 181, 212, 243, 273, 304, 334] ! m +
     (if leap \<and> 2 \<le> m then 1 else 0)"

definition MonthFromDay :: "bool \<Rightarrow> int \<Rightarrow> nat" where
  "MonthFromDay leap dwy =
     (if dwy < month_start leap 1 then 0
      else if dwy < month_start leap 2 then 1
      else if dwy < month_start leap 3 then 2
      else if dwy < month_start leap 4 then 3
      else if dwy < month_start leap 5 then 4
      else if dwy < month_start leap 6 then 5
      else if dwy < month_start leap 7 then 6
      else if dwy < month_start leap 8 then 7
      else if dwy < month_start leap 9 then 8
      else if dwy < month_start leap 10 then 9
      else if dwy < month_start leap 11 then 10
      else 11)"

definition MakeDay :: "int \<Rightarrow> nat \<Rightarrow> int \<Rightarrow> int" where
  "MakeDay y m dt = DayFromYear y + month_start (InLeapYear y) m + dt - 1"

definition TimeClip :: "int \<Rightarrow> js_date" where
  "TimeClip t = (if \<bar>t\<bar> \<le> 8640000000000000 then Date t else InvalidDate)"

text \<open>A number in \<open>w\<close> digits, and the year of the ISO format: four digits, or a sign and six.\<close>

definition pad :: "nat \<Rightarrow> nat \<Rightarrow> string" where
  "pad w n = replicate (w - length (digits n)) (CHR ''0'') @ digits n"

definition year_string :: "int \<Rightarrow> string" where
  "year_string y =
     (if 0 \<le> y \<and> y \<le> 9999 then pad 4 (nat y)
      else (if y < 0 then ''-'' else ''+'') @ pad 6 (nat \<bar>y\<bar>))"

text \<open>\<^verbatim>\<open>Date.prototype.toISOString\<close> on the time value of a valid date.\<close>

definition ecma_toISOString :: "int \<Rightarrow> string" where
  "ecma_toISOString t =
     (let d = Day t;
          tod = TimeWithinDay t;
          y = YearFromDay d;
          dwy = d - DayFromYear y;
          m = MonthFromDay (InLeapYear y) dwy;
          dt = dwy - month_start (InLeapYear y) m + 1
      in year_string y @ ''-'' @ pad 2 (m + 1) @ ''-'' @ pad 2 (nat dt) @ ''T'' @
         pad 2 (nat (tod div 3600000)) @ '':'' @ pad 2 (nat (tod div 60000 mod 60)) @ '':'' @
         pad 2 (nat (tod div 1000 mod 60)) @ ''.'' @ pad 3 (nat (tod mod 1000)) @ ''Z'')"

text \<open>
  \<^verbatim>\<open>new Date(string)\<close>, for the one format \<^verbatim>\<open>toISOString\<close> writes,
  \<^verbatim>\<open>YYYY-MM-DDTHH:mm:ss.sssZ\<close> with the year in four digits or signed in six; the
  other forms a host may accept are read as an invalid date here.
\<close>

definition is_digit :: "char \<Rightarrow> bool" where
  "is_digit ch \<longleftrightarrow> ch \<in> set ''0123456789''"

definition ecma_parse_fields :: "bool \<Rightarrow> string \<Rightarrow> string \<Rightarrow> js_date" where
  "ecma_parse_fields negative year rest =
     (if list_all is_digit year \<and> length rest = 20 \<and>
         map (\<lambda>i. rest ! i) [0, 3, 6, 9, 12, 15, 19] = ''--T::.Z'' \<and>
         list_all is_digit (map (\<lambda>i. rest ! i) [1, 2, 4, 5, 7, 8, 10, 11, 13, 14, 16, 17, 18])
      then
        (let y = (if negative then - int (nat_of_digits year) else int (nat_of_digits year));
             month = nat_of_digits (take 2 (drop 1 rest));
             dt = nat_of_digits (take 2 (drop 4 rest));
             h = nat_of_digits (take 2 (drop 7 rest));
             mi = nat_of_digits (take 2 (drop 10 rest));
             s = nat_of_digits (take 2 (drop 13 rest));
             ms = nat_of_digits (take 3 (drop 16 rest))
         in if 1 \<le> month \<and> month \<le> 12 \<and> 1 \<le> dt \<and> dt \<le> 31 \<and> h \<le> 24 \<and> mi \<le> 59 \<and> s \<le> 59 \<and>
               (if h = 24 then mi = 0 \<and> s = 0 \<and> ms = 0 else True) \<and>
               (if negative then nat_of_digits year \<noteq> 0 else True)
            then TimeClip (MakeDay y (month - 1) (int dt) * 86400000 +
                           (int h * 3600000 + int mi * 60000 + int s * 1000 + int ms))
            else InvalidDate)
      else InvalidDate)"

definition ecma_parse :: "string \<Rightarrow> js_date" where
  "ecma_parse s =
     (if length s = 24 then ecma_parse_fields False (take 4 s) (drop 4 s)
      else if length s = 27 \<and> hd s = CHR ''+'' then ecma_parse_fields False (take 6 (tl s)) (drop 7 s)
      else if length s = 27 \<and> hd s = CHR ''-'' then ecma_parse_fields True (take 6 (tl s)) (drop 7 s)
      else InvalidDate)"

text \<open>
  The rules of a capability can be checked when the engine accepts every pattern of its
  parameters that is not empty and every \<^verbatim>\<open>enum\<close> list can be printed (it holds no
  symbol).
\<close>

definition rule_checkable :: "regexp_engine \<Rightarrow> ParameterDefinition \<Rightarrow> bool" where
  "rule_checkable re paramDef =
     (case param_validation paramDef of
        None \<Rightarrow> True
      | Some validation \<Rightarrow>
          (case pattern validation of
             None \<Rightarrow> True
           | Some p \<Rightarrow> if p = [] then True else \<not> isl (re p)) \<and>
          (case enum' validation of
             None \<Rightarrow> True
           | Some allowed \<Rightarrow> \<not> isl (join '', '' allowed)))"

definition rules_checkable :: "regexp_engine \<Rightarrow> SemanTestCapabilityProps \<Rightarrow> bool" where
  "rules_checkable re c = list_all (rule_checkable re) (getParameters c)"


section \<open>Verified properties\<close>

subsection \<open>The report of \<^verbatim>\<open>validateParameters\<close>\<close>

text \<open>
  \<^verbatim>\<open>validateParameters\<close> only ever appends to \<^verbatim>\<open>errors\<close>: the report is the
  errors of the loop over the required parameters, followed by those of the loop over the
  provided arguments.
\<close>

lemma required_message_inj [simp]: "required_message n = required_message n' \<longleftrightarrow> n = n'"
  by (simp add: required_message_def quote_def)

lemma required_not_parameter_message: "parameter_message m \<Longrightarrow> m \<noteq> required_message n"
  by (auto simp: parameter_message_def required_message_def)

lemma required_loop_append:
  "required_loop args ps errs =
     errs @ map (\<lambda>p. required_message (param_name p)) (filter (\<lambda>p. \<not> has_property (param_name p) args) ps)"
  by (induction ps arbitrary: errs) (simp_all add: required_message_def)

lemma type_validation_append:
  "type_validation k pd v errs = errs @ type_validation k pd v []"
  by (simp add: type_validation_def Let_def)

lemma type_validation_messages:
  "list_all parameter_message (type_validation k pd v [])"
  by (simp add: type_validation_def Let_def parameter_message_def)

lemma minLength_rule_extends:
  "\<exists>x. minLength_rule k s val errs = errs @ x \<and> list_all parameter_message x"
  by (simp add: minLength_rule_def parameter_message_def split: option.splits)

lemma maxLength_rule_extends:
  "\<exists>x. maxLength_rule k s val errs = errs @ x \<and> list_all parameter_message x"
  by (simp add: maxLength_rule_def parameter_message_def split: option.splits)

lemma pattern_rule_extends:
  "pattern_rule re k s val errs = Inr errs' \<Longrightarrow> \<exists>x. errs' = errs @ x \<and> list_all parameter_message x"
  by (auto simp: pattern_rule_def parameter_message_def split: option.splits if_splits sum.splits)

lemma string_rules_extends:
  assumes "string_rules re k v val errs = Inr errs'"
  shows "\<exists>x. errs' = errs @ x \<and> list_all parameter_message x"
proof (cases v)
  case (JString s)
  obtain x1 where x1: "minLength_rule k s val errs = errs @ x1" "list_all parameter_message x1"
    using minLength_rule_extends by blast
  obtain x2 where x2: "maxLength_rule k s val (errs @ x1) = (errs @ x1) @ x2" "list_all parameter_message x2"
    using maxLength_rule_extends by blast
  from assms JString x1 x2 have "pattern_rule re k s val ((errs @ x1) @ x2) = Inr errs'" by simp
  from pattern_rule_extends [OF this] obtain x3 where
    "errs' = ((errs @ x1) @ x2) @ x3" "list_all parameter_message x3" by blast
  with x1 x2 have "errs' = errs @ (x1 @ x2 @ x3) \<and> list_all parameter_message (x1 @ x2 @ x3)" by simp
  then show ?thesis by blast
qed (use assms in simp_all)

lemma minimum_rule_extends:
  "\<exists>x. minimum_rule k n val errs = errs @ x \<and> list_all parameter_message x"
  by (simp add: minimum_rule_def parameter_message_def split: option.splits)

lemma maximum_rule_extends:
  "\<exists>x. maximum_rule k n val errs = errs @ x \<and> list_all parameter_message x"
  by (simp add: maximum_rule_def parameter_message_def split: option.splits)

lemma number_rules_extends:
  "\<exists>x. number_rules k v val errs = errs @ x \<and> list_all parameter_message x"
proof (cases v)
  case (JNumber n)
  obtain x1 where x1: "minimum_rule k n val errs = errs @ x1" "list_all parameter_message x1"
    using minimum_rule_extends by blast
  obtain x2 where x2: "maximum_rule k n val (errs @ x1) = (errs @ x1) @ x2" "list_all parameter_message x2"
    using maximum_rule_extends by blast
  from JNumber x1 x2 have "number_rules k v val errs = errs @ (x1 @ x2) \<and> list_all parameter_message (x1 @ x2)"
    by simp
  then show ?thesis by blast
qed simp_all

lemma enum_rule_extends:
  "enum_rule k v val errs = Inr errs' \<Longrightarrow> \<exists>x. errs' = errs @ x \<and> list_all parameter_message x"
  by (auto simp: enum_rule_def parameter_message_def split: option.splits if_splits sum.splits)

lemma validation_rules_extends:
  assumes "validation_rules re k v pd errs = Inr errs'"
  shows "\<exists>x. errs' = errs @ x \<and> list_all parameter_message x"
proof (cases "param_validation pd")
  case None
  with assms show ?thesis by (simp add: validation_rules_def)
next
  case (Some val)
  with assms obtain e1 where s: "string_rules re k v val errs = Inr e1"
    and e: "enum_rule k v val (number_rules k v val e1) = Inr errs'"
    by (auto simp: validation_rules_def split: sum.splits)
  from string_rules_extends [OF s] obtain x1 where x1: "e1 = errs @ x1" "list_all parameter_message x1" by blast
  from number_rules_extends [of k v val e1] obtain x2 where x2: "number_rules k v val e1 = e1 @ x2" "list_all parameter_message x2" by blast
  from enum_rule_extends [OF e] obtain x3 where x3: "errs' = number_rules k v val e1 @ x3" "list_all parameter_message x3" by blast
  from x1 x2 x3 have "errs' = errs @ (x1 @ x2 @ x3) \<and> list_all parameter_message (x1 @ x2 @ x3)" by simp
  then show ?thesis by blast
qed

lemma provided_loop_extends:
  "provided_loop re c args (errs, warns) = Inr (errs', warns') \<Longrightarrow>
     \<exists>x. errs' = errs @ x \<and> list_all parameter_message x"
proof (induction args arbitrary: errs warns)
  case Nil
  then show ?case by simp
next
  case (Cons a args)
  obtain k v where a: "a = (k, v)" by (cases a)
  show ?case
  proof (cases "getParameter c k")
    case None
    with Cons.prems a have "provided_loop re c args (errs, warns @ [''Unknown parameter '' @ quote k @ '' provided'']) = Inr (errs', warns')"
      by simp
    from Cons.IH [OF this] show ?thesis .
  next
    case (Some pd)
    with Cons.prems a obtain e1 where v: "validation_rules re k v pd (type_validation k pd v errs) = Inr e1"
      and r: "provided_loop re c args (e1, warns) = Inr (errs', warns')"
      by (auto split: sum.splits)
    from validation_rules_extends [OF v] obtain x1 where x1: "e1 = type_validation k pd v errs @ x1" "list_all parameter_message x1" by blast
    from Cons.IH [OF r] obtain x2 where x2: "errs' = e1 @ x2" "list_all parameter_message x2" by blast
    have "errs' = errs @ (type_validation k pd v [] @ x1 @ x2)"
      using x1 x2 type_validation_append [of k pd v errs] by simp
    moreover have "list_all parameter_message (type_validation k pd v [] @ x1 @ x2)"
      using x1 x2 type_validation_messages by simp
    ultimately show ?thesis by blast
  qed
qed

lemma provided_loop_type_errors:
  "provided_loop re c args (errs, warns) = Inr (errs', warns') \<Longrightarrow> (k, v) \<in> set args \<Longrightarrow>
   getParameter c k = Some pd \<Longrightarrow> set (type_validation k pd v []) \<subseteq> set errs'"
proof (induction args arbitrary: errs warns)
  case Nil
  then show ?case by simp
next
  case (Cons a args)
  obtain k' v' where a: "a = (k', v')" by (cases a)
  show ?case
  proof (cases "getParameter c k'")
    case None
    with Cons.prems a have r: "provided_loop re c args (errs, warns @ [''Unknown parameter '' @ quote k' @ '' provided'']) = Inr (errs', warns')"
      and "(k, v) \<in> set args" by auto
    then show ?thesis using Cons.IH Cons.prems(3) by blast
  next
    case (Some pd')
    with Cons.prems a obtain e1 where v: "validation_rules re k' v' pd' (type_validation k' pd' v' errs) = Inr e1"
      and r: "provided_loop re c args (e1, warns) = Inr (errs', warns')"
      by (auto split: sum.splits)
    show ?thesis
    proof (cases "(k, v) = (k', v')")
      case True
      with Some Cons.prems(3) have pd: "pd' = pd" by simp
      from validation_rules_extends [OF v] obtain x1 where x1: "e1 = type_validation k' pd' v' errs @ x1" by blast
      from provided_loop_extends [OF r] obtain x2 where x2: "errs' = e1 @ x2" by blast
      have "errs' = errs @ type_validation k pd v [] @ x1 @ x2"
        using x1 x2 True pd type_validation_append [of k pd v errs] by simp
      then show ?thesis by auto
    next
      case False
      with Cons.prems a have "(k, v) \<in> set args" by auto
      from Cons.IH [OF r this Cons.prems(3)] show ?thesis .
    qed
  qed
qed

lemma validateParameters_errors:
  assumes "validateParameters re c args = Inr r"
  shows "\<exists>x. errors r = map (\<lambda>p. required_message (param_name p))
                 (filter (\<lambda>p. \<not> has_property (param_name p) args) (getRequiredParameters c)) @ x
             \<and> list_all parameter_message x \<and> valid r = (errors r = [])"
proof -
  from assms obtain errs warns where
    p: "provided_loop re c args (required_loop args (getRequiredParameters c) [], []) = Inr (errs, warns)"
    and r: "r = \<lparr> valid = (length errs = 0), errors = errs, warnings = warns \<rparr>"
    by (auto simp: validateParameters_def split: sum.splits)
  from provided_loop_extends [OF p] obtain x where
    "errs = required_loop args (getRequiredParameters c) [] @ x" "list_all parameter_message x" by blast
  with r show ?thesis by (simp add: required_loop_append)
qed

lemma minLength_rule_append: "minLength_rule k s val errs = errs @ minLength_rule k s val []"
  by (simp add: minLength_rule_def split: option.splits)

lemma maxLength_rule_append: "maxLength_rule k s val errs = errs @ maxLength_rule k s val []"
  by (simp add: maxLength_rule_def split: option.splits)

lemma pattern_rule_append:
  "pattern_rule re k s val errs =
     (case pattern_rule re k s val [] of Inl e \<Rightarrow> Inl e | Inr x \<Rightarrow> Inr (errs @ x))"
  by (simp add: pattern_rule_def split: option.splits sum.splits)

lemma string_rules_append:
  "string_rules re k v val errs =
     (case string_rules re k v val [] of Inl e \<Rightarrow> Inl e | Inr x \<Rightarrow> Inr (errs @ x))"
proof (cases v)
  case (JString s)
  let ?m = "maxLength_rule k s val (minLength_rule k s val [])"
  have m: "maxLength_rule k s val (minLength_rule k s val errs) = errs @ ?m"
    using maxLength_rule_append [of k s val "minLength_rule k s val errs"]
      maxLength_rule_append [of k s val "minLength_rule k s val []"]
      minLength_rule_append [of k s val errs] by simp
  show ?thesis
    using JString m pattern_rule_append [of re k s val "errs @ ?m"] pattern_rule_append [of re k s val ?m]
    by (simp split: sum.splits)
qed simp_all

lemma minimum_rule_append: "minimum_rule k n val errs = errs @ minimum_rule k n val []"
  by (simp add: minimum_rule_def split: option.splits)

lemma maximum_rule_append: "maximum_rule k n val errs = errs @ maximum_rule k n val []"
  by (simp add: maximum_rule_def split: option.splits)

lemma number_rules_append:
  "number_rules k v val errs = errs @ number_rules k v val []"
proof (cases v)
  case (JNumber n)
  show ?thesis
    using JNumber maximum_rule_append [of k n val "minimum_rule k n val errs"]
      maximum_rule_append [of k n val "minimum_rule k n val []"]
      minimum_rule_append [of k n val errs] by simp
qed simp_all

lemma enum_rule_append:
  "enum_rule k v val errs =
     (case enum_rule k v val [] of Inl e \<Rightarrow> Inl e | Inr x \<Rightarrow> Inr (errs @ x))"
  by (auto simp: enum_rule_def split: option.splits sum.splits)

lemma validation_rules_append:
  "validation_rules re k v pd errs =
     (case validation_rules re k v pd [] of Inl e \<Rightarrow> Inl e | Inr x \<Rightarrow> Inr (errs @ x))"
proof (cases "param_validation pd")
  case None
  then show ?thesis by (simp add: validation_rules_def)
next
  case (Some val)
  show ?thesis
  proof (cases "string_rules re k v val []")
    case (Inl e)
    with Some show ?thesis
      using string_rules_append [of re k v val errs] by (simp add: validation_rules_def)
  next
    case (Inr x)
    have n: "number_rules k v val (errs @ x) = errs @ number_rules k v val x"
      using number_rules_append [of k v val "errs @ x"] number_rules_append [of k v val x] by simp
    show ?thesis
      using Some Inr string_rules_append [of re k v val errs] n
        enum_rule_append [of k v val "errs @ number_rules k v val x"]
        enum_rule_append [of k v val "number_rules k v val x"]
      by (simp add: validation_rules_def split: sum.splits)
  qed
qed

lemma entry_errors_append:
  "validation_rules re k v pd (type_validation k pd v errs) =
     (case entry_errors re k v pd of Inl e \<Rightarrow> Inl e | Inr x \<Rightarrow> Inr (errs @ x))"
  using validation_rules_append [of re k v pd "type_validation k pd v errs"]
    validation_rules_append [of re k v pd "type_validation k pd v []"]
    type_validation_append [of k pd v errs]
  by (simp add: entry_errors_def split: sum.splits)

lemma provided_loop_entry:
  "provided_loop re c args (errs, warns) = Inr (errs', warns') \<Longrightarrow> (k, v) \<in> set args \<Longrightarrow>
   getParameter c k = Some pd \<Longrightarrow> \<exists>x. entry_errors re k v pd = Inr x \<and> set x \<subseteq> set errs'"
proof (induction args arbitrary: errs warns)
  case Nil
  then show ?case by simp
next
  case (Cons a args)
  obtain k' v' where a: "a = (k', v')" by (cases a)
  show ?case
  proof (cases "getParameter c k'")
    case None
    with Cons.prems a have r: "provided_loop re c args (errs, warns @ [''Unknown parameter '' @ quote k' @ '' provided'']) = Inr (errs', warns')"
      and "(k, v) \<in> set args" by auto
    then show ?thesis using Cons.IH Cons.prems(3) by blast
  next
    case (Some pd')
    with Cons.prems a obtain e1 where v: "validation_rules re k' v' pd' (type_validation k' pd' v' errs) = Inr e1"
      and r: "provided_loop re c args (e1, warns) = Inr (errs', warns')"
      by (auto split: sum.splits)
    show ?thesis
    proof (cases "(k, v) = (k', v')")
      case True
      with Some Cons.prems(3) have pd: "pd' = pd" by simp
      from v True pd obtain x where x: "entry_errors re k v pd = Inr x" "e1 = errs @ x"
        using entry_errors_append [of re k v pd errs] by (auto split: sum.splits)
      from provided_loop_extends [OF r] obtain x2 where "errs' = e1 @ x2" by blast
      with x show ?thesis by auto
    next
      case False
      with Cons.prems a have "(k, v) \<in> set args" by auto
      from Cons.IH [OF r this Cons.prems(3)] show ?thesis .
    qed
  qed
qed

lemma validateParameters_entry:
  assumes "validateParameters re c parameters = Inr r"
    and "(k, v) \<in> set parameters"
    and "getParameter c k = Some pd"
  shows "\<exists>x. entry_errors re k v pd = Inr x \<and> set x \<subseteq> set (errors r) \<and> (x \<noteq> [] \<longrightarrow> \<not> valid r)"
proof -
  from assms(1) obtain errs warns where
    p: "provided_loop re c parameters (required_loop parameters (getRequiredParameters c) [], []) = Inr (errs, warns)"
    and r: "r = \<lparr> valid = (length errs = 0), errors = errs, warnings = warns \<rparr>"
    by (auto simp: validateParameters_def split: sum.splits)
  from provided_loop_entry [OF p assms(2) assms(3)] obtain x where
    "entry_errors re k v pd = Inr x" "set x \<subseteq> set errs" by blast
  with r show ?thesis by auto
qed

text \<open>
  \<^verbatim>\<open>validateParameters\<close> returns a report, whatever the arguments, when the rules of
  the capability can be checked.
\<close>

lemma entry_errors_returns:
  assumes "rule_checkable re pd"
  shows "\<exists>x. entry_errors re k v pd = Inr x"
proof (cases "param_validation pd")
  case None
  then show ?thesis by (simp add: entry_errors_def validation_rules_def)
next
  case (Some val)
  with assms have p: "case pattern val of None \<Rightarrow> True | Some p \<Rightarrow> if p = [] then True else \<not> isl (re p)"
    and e: "case enum' val of None \<Rightarrow> True | Some allowed \<Rightarrow> \<not> isl (join '', '' allowed)"
    by (simp_all add: rule_checkable_def)
  have s: "\<exists>x. string_rules re k v val errs = Inr x" for errs
  proof (cases v)
    case (JString s)
    from p show ?thesis
      by (cases "pattern val")
         (auto simp: JString pattern_rule_def split: sum.splits if_splits)
  qed simp_all
  have n: "\<exists>x. enum_rule k v val errs = Inr x" for errs
    using e by (cases "enum' val") (auto simp: enum_rule_def split: sum.splits)
  from s [of "type_validation k pd v []"] obtain x1 where
    "string_rules re k v val (type_validation k pd v []) = Inr x1" by blast
  with n [of "number_rules k v val x1"] Some show ?thesis
    by (auto simp: entry_errors_def validation_rules_def)
qed

lemma getParameter_in: "getParameter c k = Some pd \<Longrightarrow> pd \<in> set (getParameters c)"
  by (auto simp: getParameter_def find_Some_iff)

lemma provided_loop_returns:
  assumes "rules_checkable re c"
  shows "\<exists>res. provided_loop re c args st = Inr res"
proof (induction args arbitrary: st)
  case Nil
  then show ?case by (cases st) simp
next
  case (Cons a args)
  obtain k v where a: "a = (k, v)" by (cases a)
  obtain errs warns where st: "st = (errs, warns)" by (cases st)
  show ?case
  proof (cases "getParameter c k")
    case None
    with a st Cons.IH show ?thesis by simp
  next
    case (Some pd)
    with assms have "rule_checkable re pd"
      using getParameter_in [OF Some] by (simp add: rules_checkable_def list_all_iff)
    from entry_errors_returns [OF this, of k v] obtain x where "entry_errors re k v pd = Inr x"
      by blast
    then have "validation_rules re k v pd (type_validation k pd v errs) = Inr (errs @ x)"
      by (simp add: entry_errors_append)
    with a st Some Cons.IH show ?thesis by simp
  qed
qed

lemma validateParameters_returns:
  assumes "rules_checkable re c"
  shows "\<exists>r. validateParameters re c args = Inr r"
proof -
  from provided_loop_returns [OF assms] obtain res where
    "provided_loop re c args (required_loop args (getRequiredParameters c) [], []) = Inr res"
    by blast
  then show ?thesis by (cases res) (simp add: validateParameters_def)
qed

text \<open>
  Where it throws, the exception is the one that the rules of a provided argument throw,
  and those rules cannot be checked.
\<close>

lemma provided_loop_throws:
  "provided_loop re c args st = Inl e \<Longrightarrow>
     \<exists>k v pd. (k, v) \<in> set args \<and> getParameter c k = Some pd \<and> entry_errors re k v pd = Inl e"
proof (induction args arbitrary: st)
  case Nil
  then show ?case by (cases st) simp
next
  case (Cons a args)
  obtain k v where a: "a = (k, v)" by (cases a)
  obtain errs warns where st: "st = (errs, warns)" by (cases st)
  show ?case
  proof (cases "getParameter c k")
    case None
    with Cons.prems a st have "provided_loop re c args (errs, warns @ [''Unknown parameter '' @ quote k @ '' provided'']) = Inl e"
      by simp
    from Cons.IH [OF this] a show ?thesis by auto
  next
    case (Some pd)
    show ?thesis
    proof (cases "entry_errors re k v pd")
      case (Inl e1)
      with Cons.prems a st Some have "e1 = e"
        using entry_errors_append [of re k v pd errs] by simp
      with Inl Some a show ?thesis by auto
    next
      case (Inr x)
      with Cons.prems a st Some have "provided_loop re c args (errs @ x, warns) = Inl e"
        using entry_errors_append [of re k v pd errs] by simp
      from Cons.IH [OF this] a show ?thesis by auto
    qed
  qed
qed

lemma validateParameters_throws:
  assumes "validateParameters re c args = Inl e"
  shows "\<exists>k v pd. (k, v) \<in> set args \<and> getParameter c k = Some pd \<and> entry_errors re k v pd = Inl e"
proof -
  from assms have "provided_loop re c args (required_loop args (getRequiredParameters c) [], []) = Inl e"
    by (auto simp: validateParameters_def split: sum.splits)
  then show ?thesis by (rule provided_loop_throws)
qed

lemma validateParameters_throws_unchecked:
  assumes "validateParameters re c args = Inl e"
  shows "\<not> rules_checkable re c"
  using validateParameters_returns [of re c args] assms by auto

text \<open>\<^verbatim>\<open>getParameter\<close> is \<^verbatim>\<open>find\<close>: it gives the first definition with the name.\<close>

lemma getParameter_first:
  assumes "getParameter c k = Some pd"
  shows "\<exists>before after. getParameters c = before @ pd # after \<and> param_name pd = k
           \<and> (\<forall>p \<in> set before. param_name p \<noteq> k)"
proof -
  from assms obtain i where i: "i < length (getParameters c)" "getParameters c ! i = pd"
    "param_name pd = k" "\<forall>j<i. param_name (getParameters c ! j) \<noteq> k"
    by (auto simp: getParameter_def find_Some_iff)
  let ?ps = "getParameters c"
  have "?ps = take i ?ps @ pd # drop (Suc i) ?ps"
    using i(1) i(2) id_take_nth_drop by blast
  moreover have "\<forall>p \<in> set (take i ?ps). param_name p \<noteq> k"
  proof
    fix p assume "p \<in> set (take i ?ps)"
    then obtain j where "j < i" "p = ?ps ! j" using i(1) by (auto simp: in_set_conv_nth)
    with i(4) show "param_name p \<noteq> k" by simp
  qed
  ultimately show ?thesis using i(3) by blast
qed

subsection \<open>Type validation\<close>

lemma typeof_not_file: "typeof v \<noteq> ''file''"
  by (cases v) simp_all

lemma type_mismatch_in_report:
  assumes "validateParameters re c parameters = Inr r"
    and "(paramName, paramValue) \<in> set parameters"
    and "getParameter c paramName = Some paramDef"
    and "if param_type paramDef = ''array'' then \<not> isArray paramValue
         else typeof paramValue \<noteq> param_type paramDef"
  shows "type_mismatch_message paramName (param_type paramDef) (typeof paramValue) \<in> set (errors r)
         \<and> \<not> valid r"
proof -
  from assms(1) obtain errs warns where
    p: "provided_loop re c parameters (required_loop parameters (getRequiredParameters c) [], []) = Inr (errs, warns)"
    and r: "r = \<lparr> valid = (length errs = 0), errors = errs, warnings = warns \<rparr>"
    by (auto simp: validateParameters_def split: sum.splits)
  have "type_validation paramName paramDef paramValue [] =
          [type_mismatch_message paramName (param_type paramDef) (typeof paramValue)]"
    using assms(4) by (auto simp: type_validation_def type_mismatch_message_def Let_def split: if_splits)
  with provided_loop_type_errors [OF p assms(2) assms(3)]
  have "type_mismatch_message paramName (param_type paramDef) (typeof paramValue) \<in> set errs" by simp
  with r show ?thesis by auto
qed

text \<open>
  Claim C4, amended. A provided argument is checked against the definition that
  \<^verbatim>\<open>getParameter\<close> finds for its name, which is the first one declared with that
  name. Where \<^verbatim>\<open>validateParameters\<close> returns a report, a value that is no array
  for the declared type \<^verbatim>\<open>array\<close>, or whose \<^verbatim>\<open>typeof\<close> is not the declared
  name for any other declared type, has the error that cites the declared and the actual
  kind, and the report is not valid; a string for a definition that declares
  \<^verbatim>\<open>number\<close> so has the error \<^verbatim>\<open>Parameter '<name>' expected number, got string\<close>.
  A conforming value adds nothing. \<^verbatim>\<open>validateParameters\<close> returns a report whenever
  the rules of the capability can be checked; where it throws instead, they cannot, and
  what it throws is what the rules of one provided argument throw.
\<close>

theorem validateParameters_type_check:
  assumes "(paramName, paramValue) \<in> set parameters"
    and "getParameter c paramName = Some paramDef"
  shows "(case validateParameters re c parameters of
            Inl e \<Rightarrow>
              \<not> rules_checkable re c
              \<and> (\<exists>k v pd. (k, v) \<in> set parameters \<and> getParameter c k = Some pd
                     \<and> entry_errors re k v pd = Inl e)
          | Inr r \<Rightarrow>
              (param_type paramDef = ''array'' \<and> \<not> isArray paramValue \<longrightarrow>
                 type_mismatch_message paramName ''array'' (typeof paramValue) \<in> set (errors r)
                 \<and> \<not> valid r)
            \<and> (param_type paramDef \<noteq> ''array'' \<and> typeof paramValue \<noteq> param_type paramDef \<longrightarrow>
                 type_mismatch_message paramName (param_type paramDef) (typeof paramValue)
                   \<in> set (errors r)
                 \<and> \<not> valid r)
            \<and> (param_type paramDef = ''number'' \<and> paramValue = JString s \<longrightarrow>
                 type_mismatch_message paramName ''number'' ''string'' \<in> set (errors r)
                 \<and> \<not> valid r))
       \<and> ((if param_type paramDef = ''array'' then isArray paramValue
            else typeof paramValue = param_type paramDef) \<longrightarrow>
            type_validation paramName paramDef paramValue errs = errs)
       \<and> (rules_checkable re c \<longrightarrow> (\<exists>r. validateParameters re c parameters = Inr r))
       \<and> (\<exists>before after. getParameters c = before @ paramDef # after
             \<and> param_name paramDef = paramName
             \<and> (\<forall>p \<in> set before. param_name p \<noteq> paramName))"
proof (intro conjI impI)
  show "case validateParameters re c parameters of
            Inl e \<Rightarrow>
              \<not> rules_checkable re c
              \<and> (\<exists>k v pd. (k, v) \<in> set parameters \<and> getParameter c k = Some pd
                     \<and> entry_errors re k v pd = Inl e)
          | Inr r \<Rightarrow>
              (param_type paramDef = ''array'' \<and> \<not> isArray paramValue \<longrightarrow>
                 type_mismatch_message paramName ''array'' (typeof paramValue) \<in> set (errors r)
                 \<and> \<not> valid r)
            \<and> (param_type paramDef \<noteq> ''array'' \<and> typeof paramValue \<noteq> param_type paramDef \<longrightarrow>
                 type_mismatch_message paramName (param_type paramDef) (typeof paramValue)
                   \<in> set (errors r)
                 \<and> \<not> valid r)
            \<and> (param_type paramDef = ''number'' \<and> paramValue = JString s \<longrightarrow>
                 type_mismatch_message paramName ''number'' ''string'' \<in> set (errors r)
                 \<and> \<not> valid r)"
  proof (cases "validateParameters re c parameters")
    case (Inl e)
    with validateParameters_throws [OF Inl] validateParameters_throws_unchecked [OF Inl]
    show ?thesis by simp
  next
    case (Inr r)
    have "(if param_type paramDef = ''array'' then \<not> isArray paramValue
           else typeof paramValue \<noteq> param_type paramDef) \<Longrightarrow>
          type_mismatch_message paramName (param_type paramDef) (typeof paramValue) \<in> set (errors r)
          \<and> \<not> valid r"
      by (rule type_mismatch_in_report [OF Inr assms])
    with Inr show ?thesis by auto
  qed
next
  assume "if param_type paramDef = ''array'' then isArray paramValue
          else typeof paramValue = param_type paramDef"
  then show "type_validation paramName paramDef paramValue errs = errs"
    by (auto simp: type_validation_def Let_def split: if_splits)
next
  assume "rules_checkable re c"
  then show "\<exists>r. validateParameters re c parameters = Inr r"
    by (rule validateParameters_returns)
next
  show "\<exists>before after. getParameters c = before @ paramDef # after
             \<and> param_name paramDef = paramName
             \<and> (\<forall>p \<in> set before. param_name p \<noteq> paramName)"
    by (rule getParameter_first [OF assms(2)])
qed

lemmas sample_defs = one_parameter_capability_def two_parameter_capability_def create_def
  with_parameters_def parameter_def no_validation_def

lemmas validateParameters_defs = validateParameters_def getRequiredParameters_def getParameters_def
  getParameter_def has_property_def object_prototype_names_def type_validation_def
  validation_rules_def enum_rule_def

theorem validateParameters_type_check_witness:
  "validateParameters sample_engine
     (two_parameter_capability (parameter ''count'' ''number'' True None)
        (parameter ''count'' ''string'' True None))
     [(''count'', JString ''three'')] =
     Inr \<lparr> valid = False, errors = [type_mismatch_message ''count'' ''number'' ''string''], warnings = [] \<rparr>
   \<and> type_mismatch_message ''count'' ''number'' ''string'' \<in>
       set (errors \<lparr> valid = False, errors = [type_mismatch_message ''count'' ''number'' ''string''], warnings = [] \<rparr>)
   \<and> rules_checkable sample_engine
       (two_parameter_capability (parameter ''count'' ''number'' True None)
          (parameter ''count'' ''string'' True None))"
proof -
  let ?c = "two_parameter_capability (parameter ''count'' ''number'' True None)
              (parameter ''count'' ''string'' True None)"
  let ?r = "\<lparr> valid = False, errors = [type_mismatch_message ''count'' ''number'' ''string''], warnings = [] \<rparr>"
  have h1: "validateParameters sample_engine ?c [(''count'', JString ''three'')] = Inr ?r"
    by (simp add: validateParameters_defs sample_defs type_mismatch_message_def)
  have h2: "(''count'', JString ''three'') \<in> set [(''count'', JString ''three'')]" by simp
  have h3: "getParameter ?c ''count'' = Some (parameter ''count'' ''number'' True None)"
    by (simp add: validateParameters_defs sample_defs)
  have h4: "rules_checkable sample_engine ?c"
    by (simp add: rules_checkable_def rule_checkable_def getParameters_def sample_defs)
  from validateParameters_type_check
         [OF h2 h3, where re = sample_engine and s = "''three''" and errs = "[]"] h1 h4
  show ?thesis by (simp add: parameter_def)
qed

text \<open>
  Claim C4 as stated: the parameter \<^verbatim>\<open>count\<close> declares \<^verbatim>\<open>number\<close> and carries
  the pattern \<^verbatim>\<open>(\<close>. For the string \<^verbatim>\<open>three\<close> the mismatch is noted, and then
  \<^verbatim>\<open>new RegExp\<close> throws: there is no report, so none with \<^verbatim>\<open>valid = false\<close>.
\<close>

theorem string_for_number_with_pattern_throws:
  "validateParameters sample_engine
     (one_parameter_capability (parameter ''count'' ''number'' True
        (Some (no_validation\<lparr> pattern := Some ''('' \<rparr>))))
     [(''count'', JString ''three'')] =
     Inl (SyntaxError ''Invalid regular expression: /(/: Unterminated group'')"
  by (simp add: validateParameters_defs sample_defs sample_engine_def minLength_rule_def
      maxLength_rule_def pattern_rule_def)

text \<open>
  A definition that follows another one of the same name is never consulted: a string for
  \<^verbatim>\<open>k\<close> is accepted where \<^verbatim>\<open>k\<close> is declared \<^verbatim>\<open>string\<close> first and
  \<^verbatim>\<open>number\<close>, or \<^verbatim>\<open>file\<close>, after.
\<close>

lemma string_for_later_number_definition:
  "validateParameters re
     (two_parameter_capability (parameter k ''string'' False None) (parameter k ''number'' False None))
     [(k, JString s)] = Inr \<lparr> valid = True, errors = [], warnings = [] \<rparr>"
  by (simp add: validateParameters_defs two_parameter_capability_def create_def
      with_parameters_def parameter_def)

lemma string_for_later_file_definition:
  "validateParameters re
     (two_parameter_capability (parameter k ''string'' False None) (parameter k ''file'' False None))
     [(k, JString s)] = Inr \<lparr> valid = True, errors = [], warnings = [] \<rparr>"
  by (simp add: validateParameters_defs two_parameter_capability_def create_def
      with_parameters_def parameter_def)

text \<open>
  Claim C9, amended. \<^verbatim>\<open>file\<close> is a \<^verbatim>\<open>ParameterType\<close>, and no value has the
  \<^verbatim>\<open>typeof\<close> \<^verbatim>\<open>file\<close>. So for an argument whose name \<^verbatim>\<open>getParameter\<close>
  resolves to a definition declared \<^verbatim>\<open>file\<close> (the first one declared with that
  name), the type validation adds \<^verbatim>\<open>Parameter '<name>' expected file, got <kind>\<close>
  whatever the value, and \<^verbatim>\<open>validateParameters\<close> never returns a valid report: it
  returns one that holds this error and is not valid, or it throws. It returns whenever
  the rules of the capability can be checked; where it throws, they cannot, and what it
  throws is what the rules of one provided argument throw.
\<close>

theorem file_type_unsatisfiable:
  assumes "(paramName, paramValue) \<in> set parameters"
    and "getParameter c paramName = Some paramDef"
    and "param_type paramDef = ''file''"
  shows "''file'' \<in> set ParameterType
       \<and> typeof paramValue \<noteq> ''file''
       \<and> type_validation paramName paramDef paramValue errs =
           errs @ [type_mismatch_message paramName ''file'' (typeof paramValue)]
       \<and> (case validateParameters re c parameters of
            Inl e \<Rightarrow>
              \<not> rules_checkable re c
              \<and> (\<exists>k v pd. (k, v) \<in> set parameters \<and> getParameter c k = Some pd
                     \<and> entry_errors re k v pd = Inl e)
          | Inr r \<Rightarrow>
              type_mismatch_message paramName ''file'' (typeof paramValue) \<in> set (errors r)
              \<and> \<not> valid r)
       \<and> (rules_checkable re c \<longrightarrow> (\<exists>r. validateParameters re c parameters = Inr r))
       \<and> validateParameters re c parameters \<noteq> Inr \<lparr> valid = True, errors = es, warnings = ws \<rparr>
       \<and> (\<exists>before after. getParameters c = before @ paramDef # after
             \<and> param_name paramDef = paramName
             \<and> (\<forall>p \<in> set before. param_name p \<noteq> paramName))"
proof -
  have t: "typeof paramValue \<noteq> ''file''" by (rule typeof_not_file)
  have c: "case validateParameters re c parameters of
            Inl e \<Rightarrow>
              \<not> rules_checkable re c
              \<and> (\<exists>k v pd. (k, v) \<in> set parameters \<and> getParameter c k = Some pd
                     \<and> entry_errors re k v pd = Inl e)
          | Inr r \<Rightarrow>
              type_mismatch_message paramName ''file'' (typeof paramValue) \<in> set (errors r)
              \<and> \<not> valid r"
  proof (cases "validateParameters re c parameters")
    case (Inl e)
    with validateParameters_throws [OF Inl] validateParameters_throws_unchecked [OF Inl]
    show ?thesis by simp
  next
    case (Inr r)
    with type_mismatch_in_report [OF Inr assms(1) assms(2)] assms(3) t show ?thesis by simp
  qed
  have v: "type_validation paramName paramDef paramValue errs =
           errs @ [type_mismatch_message paramName ''file'' (typeof paramValue)]"
    using assms(3) t by (simp add: type_validation_def type_mismatch_message_def Let_def)
  have n: "validateParameters re c parameters \<noteq> Inr \<lparr> valid = True, errors = es, warnings = ws \<rparr>"
    using c by (auto split: sum.splits)
  have r: "rules_checkable re c \<longrightarrow> (\<exists>r. validateParameters re c parameters = Inr r)"
    using validateParameters_returns by blast
  from t c v n r getParameter_first [OF assms(2)] show ?thesis
    by (simp add: ParameterType_def)
qed

theorem file_type_unsatisfiable_witness:
  "validateParameters sample_engine (one_parameter_capability (parameter ''upload'' ''file'' False None))
     [(''upload'', JString ''report.pdf'')] =
     Inr \<lparr> valid = False, errors = [type_mismatch_message ''upload'' ''file'' ''string''], warnings = [] \<rparr>
   \<and> typeof (JString ''report.pdf'') \<noteq> ''file''
   \<and> type_mismatch_message ''upload'' ''file'' (typeof (JString ''report.pdf'')) \<in>
       set (errors \<lparr> valid = False, errors = [type_mismatch_message ''upload'' ''file'' ''string''], warnings = [] \<rparr>)
   \<and> rules_checkable sample_engine
       (one_parameter_capability (parameter ''upload'' ''file'' False None))"
proof -
  let ?c = "one_parameter_capability (parameter ''upload'' ''file'' False None)"
  let ?r = "\<lparr> valid = False, errors = [type_mismatch_message ''upload'' ''file'' ''string''], warnings = [] \<rparr>"
  have h1: "validateParameters sample_engine ?c [(''upload'', JString ''report.pdf'')] = Inr ?r"
    by (simp add: validateParameters_defs sample_defs type_mismatch_message_def)
  have h2: "(''upload'', JString ''report.pdf'') \<in> set [(''upload'', JString ''report.pdf'')]" by simp
  have h3: "getParameter ?c ''upload'' = Some (parameter ''upload'' ''file'' False None)"
    by (simp add: validateParameters_defs sample_defs)
  have h4: "param_type (parameter ''upload'' ''file'' False None) = ''file''"
    by (simp add: parameter_def)
  have h5: "rules_checkable sample_engine ?c"
    by (simp add: rules_checkable_def rule_checkable_def getParameters_def sample_defs)
  from file_type_unsatisfiable [OF h2 h3 h4, where re = sample_engine] h1 h5
  show ?thesis by simp
qed

text \<open>
  Claim C9 as stated: the parameter \<^verbatim>\<open>upload\<close> declares \<^verbatim>\<open>file\<close> and carries
  the pattern \<^verbatim>\<open>(\<close>. For the string \<^verbatim>\<open>report.pdf\<close> the mismatch is noted, and
  then \<^verbatim>\<open>new RegExp\<close> throws: the caller gets an exception and no report.
\<close>

theorem string_for_file_with_pattern_throws:
  "validateParameters sample_engine
     (one_parameter_capability (parameter ''upload'' ''file'' False
        (Some (no_validation\<lparr> pattern := Some ''('' \<rparr>))))
     [(''upload'', JString ''report.pdf'')] =
     Inl (SyntaxError ''Invalid regular expression: /(/: Unterminated group'')"
  by (simp add: validateParameters_defs sample_defs sample_engine_def minLength_rule_def
      maxLength_rule_def pattern_rule_def)


subsection \<open>Validation rules\<close>

lemma int_to_string_zero: "int_to_string 0 = ''0''"
  by (simp add: int_to_string_def digits.simps [of 0])

lemma number_bound_in_report:
  assumes "validateParameters re c parameters = Inr r"
    and "(k, JNumber x) \<in> set parameters"
    and "getParameter c k = Some pd"
    and "param_validation pd = Some val"
  shows "(minimum val = Some m \<and> less_number x m \<longrightarrow>
            (''Parameter '' @ quote k @ '' must be at least '' @ number_to_string m) \<in> set (errors r)
            \<and> \<not> valid r)
       \<and> (maximum val = Some m \<and> less_number m x \<longrightarrow>
            (''Parameter '' @ quote k @ '' must be at most '' @ number_to_string m) \<in> set (errors r)
            \<and> \<not> valid r)"
proof -
  from validateParameters_entry [OF assms(1) assms(2) assms(3)] obtain xs where
    xs: "entry_errors re k (JNumber x) pd = Inr xs" "set xs \<subseteq> set (errors r)" "xs \<noteq> [] \<longrightarrow> \<not> valid r"
    by blast
  let ?t = "type_validation k pd (JNumber x) []"
  from xs(1) assms(4) have e: "enum_rule k (JNumber x) val (maximum_rule k x val (minimum_rule k x val ?t)) = Inr xs"
    by (simp add: entry_errors_def validation_rules_def)
  from enum_rule_extends [OF e] obtain x3 where x3: "xs = maximum_rule k x val (minimum_rule k x val ?t) @ x3"
    by blast
  obtain x2 where x2: "maximum_rule k x val (minimum_rule k x val ?t) = minimum_rule k x val ?t @ x2"
    using maximum_rule_extends by blast
  show ?thesis
  proof (intro conjI impI)
    assume a: "minimum val = Some m \<and> less_number x m"
    then have "(''Parameter '' @ quote k @ '' must be at least '' @ number_to_string m) \<in> set xs"
      using x3 x2 by (simp add: minimum_rule_def)
    with xs show "(''Parameter '' @ quote k @ '' must be at least '' @ number_to_string m) \<in> set (errors r)"
      and "\<not> valid r" by auto
  next
    assume a: "maximum val = Some m \<and> less_number m x"
    then have "(''Parameter '' @ quote k @ '' must be at most '' @ number_to_string m) \<in> set xs"
      using x3 by (simp add: maximum_rule_def)
    with xs show "(''Parameter '' @ quote k @ '' must be at most '' @ number_to_string m) \<in> set (errors r)"
      and "\<not> valid r" by auto
  qed
qed

text \<open>
  Claim C10. \<^verbatim>\<open>minLength\<close>, \<^verbatim>\<open>maxLength\<close> and \<^verbatim>\<open>pattern\<close> are applied only
  when truthy: a bound that is \<^verbatim>\<open>0\<close> (or \<^verbatim>\<open>NaN\<close>) and the empty pattern add no
  error whatever the string, and a string parameter with all three set so accepts every
  string. \<^verbatim>\<open>minimum\<close> and \<^verbatim>\<open>maximum\<close> are applied whenever they are defined: the
  bound \<^verbatim>\<open>0\<close> rejects a negative, respectively a positive, number.
\<close>

theorem string_bounds_truthy_number_bounds_defined:
  "(\<not> truthy_number n \<longrightarrow> minLength_rule k s (val\<lparr> minLength := Some n \<rparr>) errs = errs)
 \<and> (\<not> truthy_number n \<longrightarrow> maxLength_rule k s (val\<lparr> maxLength := Some n \<rparr>) errs = errs)
 \<and> pattern_rule re k s (val\<lparr> pattern := Some [] \<rparr>) errs = Inr errs
 \<and> \<not> truthy_number (Fin 0)
 \<and> validateParameters re
      (one_parameter_capability (parameter k ''string'' True
         (Some (no_validation\<lparr> minLength := Some (Fin 0), maxLength := Some (Fin 0), pattern := Some [] \<rparr>))))
      [(k, JString s)] = Inr \<lparr> valid = True, errors = [], warnings = [] \<rparr>
 \<and> (less_number x m \<longrightarrow>
       minimum_rule k x (val\<lparr> minimum := Some m \<rparr>) errs =
         errs @ [''Parameter '' @ quote k @ '' must be at least '' @ number_to_string m])
 \<and> (less_number m x \<longrightarrow>
       maximum_rule k x (val\<lparr> maximum := Some m \<rparr>) errs =
         errs @ [''Parameter '' @ quote k @ '' must be at most '' @ number_to_string m])
 \<and> (validateParameters re c parameters = Inr r \<and> (k, JNumber (Fin i)) \<in> set parameters \<and>
      getParameter c k = Some pd \<and> param_validation pd = Some val \<longrightarrow>
        (minimum val = Some (Fin 0) \<and> i < 0 \<longrightarrow>
           (''Parameter '' @ quote k @ '' must be at least 0'') \<in> set (errors r) \<and> \<not> valid r)
      \<and> (maximum val = Some (Fin 0) \<and> 0 < i \<longrightarrow>
           (''Parameter '' @ quote k @ '' must be at most 0'') \<in> set (errors r) \<and> \<not> valid r))"
proof (intro conjI impI)
  show "validateParameters re
      (one_parameter_capability (parameter k ''string'' True
         (Some (no_validation\<lparr> minLength := Some (Fin 0), maxLength := Some (Fin 0), pattern := Some [] \<rparr>))))
      [(k, JString s)] = Inr \<lparr> valid = True, errors = [], warnings = [] \<rparr>"
    by (simp add: validateParameters_defs sample_defs minLength_rule_def maxLength_rule_def
        pattern_rule_def)
next
  assume a: "validateParameters re c parameters = Inr r \<and> (k, JNumber (Fin i)) \<in> set parameters \<and>
      getParameter c k = Some pd \<and> param_validation pd = Some val"
    and b: "minimum val = Some (Fin 0) \<and> i < 0"
  from a have n: "(minimum val = Some (Fin 0) \<and> less_number (Fin i) (Fin 0) \<longrightarrow>
            (''Parameter '' @ quote k @ '' must be at least '' @ number_to_string (Fin 0)) \<in> set (errors r)
            \<and> \<not> valid r)"
    using number_bound_in_report [of re c parameters r k "Fin i" pd val "Fin 0"] by blast
  with b show "(''Parameter '' @ quote k @ '' must be at least 0'') \<in> set (errors r)" and "\<not> valid r"
    by (simp_all add: int_to_string_zero)
next
  assume a: "validateParameters re c parameters = Inr r \<and> (k, JNumber (Fin i)) \<in> set parameters \<and>
      getParameter c k = Some pd \<and> param_validation pd = Some val"
    and b: "maximum val = Some (Fin 0) \<and> 0 < i"
  from a have n: "(maximum val = Some (Fin 0) \<and> less_number (Fin 0) (Fin i) \<longrightarrow>
            (''Parameter '' @ quote k @ '' must be at most '' @ number_to_string (Fin 0)) \<in> set (errors r)
            \<and> \<not> valid r)"
    using number_bound_in_report [of re c parameters r k "Fin i" pd val "Fin 0"] by blast
  with b show "(''Parameter '' @ quote k @ '' must be at most 0'') \<in> set (errors r)" and "\<not> valid r"
    by (simp_all add: int_to_string_zero)
qed (simp_all add: minLength_rule_def maxLength_rule_def pattern_rule_def minimum_rule_def
       maximum_rule_def)


theorem string_bounds_truthy_number_bounds_defined_witness:
  "\<not> truthy_number (Fin 0)
 \<and> maxLength_rule ''name'' ''Ada'' (no_validation\<lparr> maxLength := Some (Fin 0) \<rparr>) [] = []
 \<and> less_number (Fin (- 1)) (Fin 0)
 \<and> minimum_rule ''delta'' (Fin (- 1)) (no_validation\<lparr> minimum := Some (Fin 0) \<rparr>) [] =
      [''Parameter '' @ quote ''delta'' @ '' must be at least 0'']
 \<and> validateParameters sample_engine
      (one_parameter_capability (parameter ''delta'' ''number'' True
         (Some (no_validation\<lparr> minimum := Some (Fin 0) \<rparr>))))
      [(''delta'', JNumber (Fin (- 1)))] =
      Inr \<lparr> valid = False, errors = [''Parameter '' @ quote ''delta'' @ '' must be at least 0''],
            warnings = [] \<rparr>"
proof -
  let ?pd = "parameter ''delta'' ''number'' True (Some (no_validation\<lparr> minimum := Some (Fin 0) \<rparr>))"
  let ?c = "one_parameter_capability ?pd"
  let ?r = "\<lparr> valid = False, errors = [''Parameter '' @ quote ''delta'' @ '' must be at least 0''],
             warnings = [] \<rparr>"
  have h1: "validateParameters sample_engine ?c [(''delta'', JNumber (Fin (- 1)))] = Inr ?r"
    by (simp add: validateParameters_defs sample_defs minimum_rule_def maximum_rule_def
        int_to_string_zero)
  have h2: "getParameter ?c ''delta'' = Some ?pd"
    by (simp add: validateParameters_defs sample_defs)
  have h3: "param_validation ?pd = Some (no_validation\<lparr> minimum := Some (Fin 0) \<rparr>)"
    by (simp add: parameter_def)
  from string_bounds_truthy_number_bounds_defined
         [where n = "Fin 0" and k = "''delta''" and s = "''Ada''"
            and val = "no_validation\<lparr> minimum := Some (Fin 0) \<rparr>" and errs = "[]"
            and re = sample_engine and x = "Fin (- 1)" and m = "Fin 0" and c = ?c
            and parameters = "[(''delta'', JNumber (Fin (- 1)))]" and r = ?r and i = "- 1"
            and pd = ?pd]
    h1 h2 h3
  show ?thesis
    by (simp add: maxLength_rule_def no_validation_def int_to_string_zero)
qed

subsection \<open>Required parameters\<close>

lemma count_required_messages:
  "count_list (map (\<lambda>p. required_message (param_name p)) ps) (required_message n) =
     length (filter (\<lambda>p. param_name p = n) ps)"
  by (induction ps) simp_all

lemma count_parameter_messages:
  "list_all parameter_message x \<Longrightarrow> count_list x (required_message n) = 0"
  by (induction x) (auto dest: required_not_parameter_message)

lemma count_list_append: "count_list (xs @ ys) a = count_list xs a + count_list ys a"
  by (induction xs) simp_all

lemma filter_missing_named:
  "filter (\<lambda>p. param_name p = n) (filter (\<lambda>p. \<not> has_property (param_name p) args) ps) =
     (if has_property n args then [] else filter (\<lambda>p. param_name p = n) ps)"
  by (induction ps) auto

lemma required_parameters_reported:
  assumes "validateParameters re c parameters = Inr r"
  shows "count_list (errors r) (required_message n) =
           (if has_property n parameters then 0
            else length (filter (\<lambda>p. param_name p = n) (getRequiredParameters c)))"
    and "\<not> has_property n parameters \<Longrightarrow> n \<in> param_name ` set (getRequiredParameters c) \<Longrightarrow> \<not> valid r"
proof -
  let ?missing = "filter (\<lambda>p. \<not> has_property (param_name p) parameters) (getRequiredParameters c)"
  from validateParameters_errors [OF assms] obtain x where
    x: "errors r = map (\<lambda>p. required_message (param_name p)) ?missing @ x"
      "list_all parameter_message x" "valid r = (errors r = [])" by blast
  from x show "count_list (errors r) (required_message n) =
           (if has_property n parameters then 0
            else length (filter (\<lambda>p. param_name p = n) (getRequiredParameters c)))"
    by (simp add: count_list_append count_required_messages count_parameter_messages
        filter_missing_named del: filter_filter)
  assume "\<not> has_property n parameters" "n \<in> param_name ` set (getRequiredParameters c)"
  then have "?missing \<noteq> []" by (auto simp: filter_empty_conv)
  with x show "\<not> valid r" by simp
qed

text \<open>
  Claim C1. \<^verbatim>\<open>requiredParam.name in parameters\<close> also finds the names an object
  inherits from \<^verbatim>\<open>Object.prototype\<close>: with the required parameter
  \<^verbatim>\<open>toString\<close> and the empty argument object, \<^verbatim>\<open>validateParameters\<close> reports no
  error and \<^verbatim>\<open>valid = true\<close>, although \<^verbatim>\<open>toString\<close> is no key of the arguments.
  For every other name the missing required parameters are reported one by one
  (\<open>required_parameters_reported\<close>).
\<close>

theorem required_parameter_with_inherited_name:
  "''toString'' \<notin> set (map fst ([] :: jsval js_record))
 \<and> validateParameters re (one_parameter_capability (parameter ''toString'' ''string'' True None)) [] =
      Inr \<lparr> valid = True, errors = [], warnings = [] \<rparr>"
  by (simp add: validateParameters_defs sample_defs)

subsection \<open>The report of \<^verbatim>\<open>SemanTestContract.validate\<close>\<close>

lemma steps_loop_append:
  "steps_loop c n ss errs =
     errs @ map (\<lambda>st. unknown_capability_message n (capability st))
              (filter (\<lambda>st. \<not> hasCapability c (capability st)) ss)"
  by (induction ss arbitrary: errs) (simp_all add: unknown_capability_message_def)

lemma workflows_loop_append:
  "workflows_loop c ws errs = errs @ concat (map (step_errors c) ws)"
  by (induction ws arbitrary: errs) (auto simp: steps_loop_append step_errors_def)

lemma capabilities_loop_errors:
  "fst (capabilities_loop re now caps (errs, warns)) =
     errs @ concat (map (capability_errors re now) caps)"
proof (induction caps arbitrary: errs warns)
  case Nil
  then show ?case by simp
next
  case (Cons a caps)
  obtain n cap where a: "a = (n, cap)" by (cases a)
  show ?case
  proof (cases "validate re now cap")
    case (Inl e)
    with a show ?thesis by (simp add: Cons.IH capability_errors_def)
  next
    case (Inr r)
    with a show ?thesis by (simp add: Cons.IH capability_errors_def)
  qed
qed

lemma capabilities_loop_errors':
  "capabilities_loop re now caps (errs, warns) = (e, w) \<Longrightarrow>
     e = errs @ concat (map (capability_errors re now) caps)"
  using capabilities_loop_errors [of re now caps errs warns] by simp

lemma contract_validate_errors:
  "errors (contract_validate re now c) =
     contract_field_errors c @ concat (map (capability_errors re now) (capabilities c)) @
     workflow_errors c"
  by (cases "contract_id c = []"; cases "version c = []"; cases "domain c = []";
      cases "title c = []")
     (auto simp: contract_validate_def contract_field_errors_def workflow_errors_def
        workflows_loop_append
      split: prod.splits option.splits dest!: capabilities_loop_errors')

lemma contract_validate_valid:
  "valid (contract_validate re now c) \<longleftrightarrow> errors (contract_validate re now c) = []"
  by (simp add: contract_validate_def Let_def split: prod.splits)


lemma unknown_capabilities_reported:
  assumes "workflows c = Some ws" and "(w, workflow) \<in> set ws" and "st \<in> set (steps workflow)"
    and "\<not> hasCapability c (capability st)"
  shows "unknown_capability_message w (capability st) \<in> set (errors (contract_validate re now c))
       \<and> \<not> valid (contract_validate re now c)"
proof -
  from assms(3,4) have "unknown_capability_message w (capability st) \<in> set (step_errors c (w, workflow))"
    by (auto simp: step_errors_def)
  with assms(1,2) have "unknown_capability_message w (capability st) \<in> set (workflow_errors c)"
    by (auto simp: workflow_errors_def)
  then have "unknown_capability_message w (capability st) \<in> set (errors (contract_validate re now c))"
    by (simp add: contract_validate_errors)
  then show ?thesis by (auto simp: contract_validate_valid)
qed

lemmas validate_defs = validate_def getPrimarySelector_def getFallbackSelectors_def
  getParameters_def getExamples_def isValidCSSSelector_def trim_def is_white_space_def

lemmas contract_defs = contract_validate_def hasCapability_def has_property_def
  object_prototype_names_def unknown_capability_message_def login_contract_def
  login_capability_def step_def

text \<open>
  Claim C3. \<^verbatim>\<open>hasCapability\<close> is \<^verbatim>\<open>name in capabilities\<close>, which also finds the
  names the record inherits from \<^verbatim>\<open>Object.prototype\<close>: in the scenario of the
  specification with the step naming \<^verbatim>\<open>toString\<close>, which is no key of the
  capabilities, \<^verbatim>\<open>validate\<close> reports no error and \<^verbatim>\<open>valid = true\<close>. For every
  name that \<^verbatim>\<open>in\<close> does not find, the error names the workflow and the capability
  (\<open>unknown_capabilities_reported\<close>).
\<close>

theorem workflow_step_with_inherited_name:
  "''toString'' \<notin> set (getCapabilityNames (login_contract (login_capability ''login'' ''login'' ''Log in'') ''toString''))
 \<and> contract_validate re now (login_contract (login_capability ''login'' ''login'' ''Log in'') ''toString'') =
      \<lparr> valid = True, errors = [], warnings = [], timestamp = Date now \<rparr>"
  by (simp add: contract_defs validate_defs sample_defs getCapabilityNames_def)

text \<open>
  Claim C8, amended. The contract of the scenario, its capability having a non-empty id,
  name and description, is valid, with no error and no warning; with the step naming
  \<^verbatim>\<open>logout\<close> it is not valid and has exactly the one error
  \<^verbatim>\<open>Workflow 'signIn' references unknown capability 'logout'\<close>.
\<close>

theorem login_scenario:
  assumes "i \<noteq> []" and "n \<noteq> []" and "d \<noteq> []"
  shows "contract_validate re now (login_contract (login_capability i n d) ''login'') =
           \<lparr> valid = True, errors = [], warnings = [], timestamp = Date now \<rparr>
       \<and> contract_validate re now (login_contract (login_capability i n d) ''logout'') =
           \<lparr> valid = False, errors = [unknown_capability_message ''signIn'' ''logout''],
             warnings = [], timestamp = Date now \<rparr>"
  using assms by (simp add: contract_defs validate_defs sample_defs)

theorem login_scenario_witness:
  "''login-1'' \<noteq> [] \<and> ''login'' \<noteq> [] \<and> ''Log the user in'' \<noteq> []
 \<and> valid (contract_validate sample_engine 0
      (login_contract (login_capability ''login-1'' ''login'' ''Log the user in'') ''login''))
 \<and> errors (contract_validate sample_engine 0
      (login_contract (login_capability ''login-1'' ''login'' ''Log the user in'') ''logout'')) =
      [unknown_capability_message ''signIn'' ''logout'']"
proof -
  have h1: "''login-1'' \<noteq> []" and h2: "''login'' \<noteq> []" and h3: "''Log the user in'' \<noteq> []"
    by simp_all
  from login_scenario [OF h1 h2 h3, of sample_engine 0] show ?thesis by simp
qed

text \<open>
  Claim C8 as stated: the scenario gives the capability neither an id nor a description,
  and then the contract is not valid.
\<close>

theorem login_scenario_without_description:
  "contract_validate sample_engine 0 (login_contract (login_capability [] ''login'' []) ''login'') =
     \<lparr> valid = False,
       errors = [''Capability '' @ quote ''login'' @
                 '': Capability ID is required, Capability description is required''],
       warnings = [], timestamp = Date 0 \<rparr>"
  by (simp add: contract_defs validate_defs sample_defs)


subsection \<open>Exceptions\<close>








subsection \<open>The \<^verbatim>\<open>with\<close> operations\<close>

lemma set_insert_array_index: "set (insert_array_index k v obj) = insert (k, v) (set obj)"
  by (induction k v obj rule: insert_array_index.induct) auto

lemma assign_property_present:
  "k \<in> fst ` set obj \<Longrightarrow> (\<And>v'. (k, v') \<in> set obj \<Longrightarrow> v' = v) \<Longrightarrow> assign_property obj k v = obj"
proof -
  assume k: "k \<in> fst ` set obj" and v: "\<And>v'. (k, v') \<in> set obj \<Longrightarrow> v' = v"
  have "map (\<lambda>(k', v'). if k' = k then (k', v) else (k', v')) obj = obj"
  proof (rule map_idI)
    fix x assume x: "x \<in> set obj"
    obtain k' v' where kv: "x = (k', v')" by (cases x)
    with x v show "(case x of (k', v') \<Rightarrow> if k' = k then (k', v) else (k', v')) = x" by auto
  qed
  with k show ?thesis by (simp add: assign_property_def)
qed

lemma assign_property_idem:
  "assign_property (assign_property obj k v) k v = assign_property obj k v"
proof (cases "k \<in> fst ` set obj")
  case True
  then have "assign_property obj k v = map (\<lambda>(k', v'). if k' = k then (k', v) else (k', v')) obj"
    by (simp add: assign_property_def)
  moreover have "k \<in> fst ` set (map (\<lambda>(k', v'). if k' = k then (k', v) else (k', v')) obj)"
    using True by (force simp: image_iff split: prod.splits)
  ultimately show ?thesis
    by (intro assign_property_present) (auto split: if_splits)
next
  case False
  show ?thesis
  proof (cases "k = ''__proto__''")
    case True
    with False show ?thesis by (simp add: assign_property_def)
  next
    case np: False
    show ?thesis
    proof (cases "is_array_index k")
      case True
      with False np have a: "assign_property obj k v = insert_array_index k v obj"
        by (simp add: assign_property_def)
      show ?thesis unfolding a
        using False by (intro assign_property_present) (auto simp: set_insert_array_index image_iff)
    next
      case ni: False
      with False np have a: "assign_property obj k v = obj @ [(k, v)]"
        by (simp add: assign_property_def)
      show ?thesis unfolding a
        using False by (intro assign_property_present) (auto simp: image_iff)
    qed
  qed
qed

lemma workflows_at_capability_records [simp]:
  "workflows_at (h\<lparr> capability_records := x \<rparr>) = workflows_at h"
  by (rule ext) (simp add: workflows_at_def)

lemma capabilities_at_workflow_records [simp]:
  "capabilities_at (h\<lparr> workflow_records := x \<rparr>) = capabilities_at h"
  by (rule ext) (simp add: capabilities_at_def)

text \<open>
  Claim C6. For a contract that lives in the store, each of \<^verbatim>\<open>withCapability\<close>,
  \<^verbatim>\<open>withoutCapability\<close>, \<^verbatim>\<open>withMetadata\<close> and \<^verbatim>\<open>withWorkflow\<close> returns a
  contract whose props are those of the original with the named field replaced
  (\<^verbatim>\<open>capabilities\<close> with the property written or deleted, \<^verbatim>\<open>metadata\<close>,
  \<^verbatim>\<open>workflows\<close> with the property written) and \<^verbatim>\<open>updatedAt\<close> set to the current
  time; every object the store held is kept unchanged, and so the original contract reads
  as before.
\<close>

theorem with_operations_frame:
  assumes "in_store h this"
  shows "(case withCapability now h this n cap of (h', this') \<Rightarrow>
            store_kept h h' \<and> props h' this = props h this \<and>
            props h' this' = (props h this)\<lparr> capabilities := assign_property (capabilities (props h this)) n cap,
                                              updatedAt := Date now \<rparr>)
       \<and> (case withoutCapability now h this n of (h', this') \<Rightarrow>
            store_kept h h' \<and> props h' this = props h this \<and>
            props h' this' = (props h this)\<lparr> capabilities := delete_property (capabilities (props h this)) n,
                                              updatedAt := Date now \<rparr>)
       \<and> (case withMetadata now h this m of (h', this') \<Rightarrow>
            store_kept h h' \<and> props h' this = props h this \<and>
            props h' this' = (props h this)\<lparr> metadata := Some m, updatedAt := Date now \<rparr>)
       \<and> (case withWorkflow now h this n workflow of (h', this') \<Rightarrow>
            store_kept h h' \<and> props h' this = props h this \<and>
            props h' this' = (props h this)\<lparr> workflows := Some (assign_property
                                                (case workflows (props h this) of None \<Rightarrow> [] | Some ws \<Rightarrow> ws)
                                                n workflow),
                                              updatedAt := Date now \<rparr>)"
  using assms
  by (auto simp: withCapability_def withoutCapability_def withMetadata_def withWorkflow_def
      Let_def store_kept_def in_store_def props_def capabilities_at_def workflows_at_def nth_append
      split: option.splits)

theorem with_operations_frame_witness:
  "in_store sample_store sample_contract
 \<and> (case withCapability 1000 sample_store sample_contract ''logout'' undescribed_capability of
      (h', this') \<Rightarrow>
        store_kept sample_store h' \<and>
        capabilities (props h' sample_contract) =
          [(''login'', login_capability ''login-1'' ''login'' ''Log the user in'')] \<and>
        capabilities (props h' this') =
          [(''login'', login_capability ''login-1'' ''login'' ''Log the user in''),
           (''logout'', undescribed_capability)] \<and>
        updatedAt (props h' this') = Date 1000 \<and> updatedAt (props h' sample_contract) = Date 0 \<and>
        title (props h' this') = ''Login'')"
proof -
  have h: "in_store sample_store sample_contract"
    by (simp add: in_store_def sample_store_def sample_contract_def)
  have a: "assign_property [(''login'', login_capability ''login-1'' ''login'' ''Log the user in'')]
             ''logout'' undescribed_capability =
           [(''login'', login_capability ''login-1'' ''login'' ''Log the user in''),
            (''logout'', undescribed_capability)]"
    by (simp add: assign_property_def is_array_index_def nat_of_digits_def digits.simps)
  from with_operations_frame [OF h, of 1000 "''logout''" undescribed_capability] h a
  show ?thesis
    by (simp add: props_def sample_store_def sample_contract_def capabilities_at_def
        withCapability_def Let_def split: prod.splits)
qed

text \<open>
  Claim C7. \<^verbatim>\<open>c.withCapability(n, cap).withCapability(n, cap)\<close> has the props of
  \<^verbatim>\<open>c.withCapability(n, cap)\<close> in every field but \<^verbatim>\<open>updatedAt\<close>, which is the time
  of the second call.
\<close>

theorem withCapability_idempotent:
  "(case withCapability now1 h this n cap of (h1, c1) \<Rightarrow>
      case withCapability now2 h1 c1 n cap of (h2, c2) \<Rightarrow>
        props h2 c2 = (props h1 c1)\<lparr> updatedAt := Date now2 \<rparr>)"
  by (auto simp: withCapability_def Let_def props_def capabilities_at_def workflows_at_def
      nth_append assign_property_idem split: option.splits)


theorem withCapability_idempotent_witness:
  "(case withCapability 1000 sample_store sample_contract ''logout'' undescribed_capability of
      (h1, c1) \<Rightarrow>
        case withCapability 2000 h1 c1 ''logout'' undescribed_capability of
          (h2, c2) \<Rightarrow>
            capabilities (props h2 c2) = capabilities (props h1 c1) \<and>
            updatedAt (props h1 c1) = Date 1000 \<and> updatedAt (props h2 c2) = Date 2000)"
  using withCapability_idempotent [where ?now1.0 = 1000 and h = sample_store
          and this = sample_contract and n = "''logout''" and cap = undescribed_capability
          and ?now2.0 = 2000]
  by (simp add: withCapability_def Let_def props_def split: prod.splits)

subsection \<open>Serialization\<close>

text \<open>
  The two conversions of the host are inverse on the time values of the valid dates: the
  digits of a number read back as the number, a day number lies within the year
  \<open>YearFromDay\<close> finds for it, and so \<open>MakeDay\<close> gives back the day.
\<close>

lemma digit_chars:
  "list_all (\<lambda>n. is_digit (''0123456789'' ! n) \<and> of_char (''0123456789'' ! n) - 48 = n) [0..<10]"
  by (simp add: upt_rec [of 0] upt_rec [of "Suc _"] is_digit_def numeral_eq_Suc del: upt_Suc)

lemma digit_char: "n < 10 \<Longrightarrow> is_digit (''0123456789'' ! n) \<and> of_char (''0123456789'' ! n) - 48 = n"
  using digit_chars by (simp add: list_all_iff)

lemma nat_of_digits_snoc:
  "nat_of_digits (s @ [ch]) = 10 * nat_of_digits s + (of_char ch - 48)"
  by (simp add: nat_of_digits_def)

lemma digits_props:
  "list_all is_digit (digits n) \<and> nat_of_digits (digits n) = n \<and> digits n \<noteq> []"
proof (induction n rule: digits.induct)
  case (1 n)
  show ?case
  proof (cases "n < 10")
    case True
    then show ?thesis
      using digit_char [of n] by (simp add: digits.simps [of n] nat_of_digits_def)
  next
    case False
    with "1" have ih: "list_all is_digit (digits (n div 10))" "nat_of_digits (digits (n div 10)) = n div 10"
      by simp_all
    have m: "n mod 10 < 10" by simp
    from False ih digit_char [OF m] show ?thesis
      by (simp add: digits.simps [of n] nat_of_digits_snoc)
  qed
qed

lemma length_digits: "0 < w \<Longrightarrow> n < 10 ^ w \<Longrightarrow> length (digits n) \<le> w"
proof (induction n arbitrary: w rule: digits.induct)
  case (1 n)
  show ?case
  proof (cases "n < 10")
    case True
    with "1.prems" show ?thesis by (simp add: digits.simps [of n])
  next
    case False
    with "1.prems" have w: "1 < w" by (cases "w = 1") auto
    then obtain v where v: "w = Suc v" "0 < v" by (cases w) auto
    with "1.prems" have "n div 10 < 10 ^ v"
      by (simp add: less_mult_imp_div_less mult.commute)
    from "1.IH" [OF False v(2) this] False v show ?thesis
      by (simp add: digits.simps [of n])
  qed
qed

lemma nat_of_digits_zeros: "nat_of_digits (replicate k (CHR ''0'') @ s) = nat_of_digits s"
  by (induction k) (simp_all add: nat_of_digits_def)

lemma zeros_digits: "list_all is_digit (replicate k (CHR ''0''))"
  by (induction k) (simp_all add: is_digit_def)

lemma pad_props:
  assumes "0 < w" and "n < 10 ^ w"
  shows "length (pad w n) = w" and "list_all is_digit (pad w n)" and "nat_of_digits (pad w n) = n"
  using length_digits [OF assms] digits_props [of n] zeros_digits
  by (simp_all add: pad_def nat_of_digits_zeros)

lemma div_cycle: "0 \<le> x \<Longrightarrow> x < m \<Longrightarrow> (m * q + x) div m = (q :: int)"
  by (simp add: div_pos_pos_trivial)

lemma mod_cycle: "0 < x \<Longrightarrow> x \<le> m \<Longrightarrow> (m * q + x) mod m = 0 \<longleftrightarrow> x = (m :: int)"
proof -
  assume x: "0 < x" "x \<le> m"
  have "(m * q + x) mod m = x mod m" by simp
  also have "\<dots> = (if x = m then 0 else x)" using x by (simp add: mod_pos_pos_trivial)
  finally show ?thesis using x by auto
qed

lemma DayFromYear_cycles:
  fixes a b c e :: int
  assumes "0 \<le> b" "b \<le> 3" "0 \<le> c" "c \<le> 24" "0 \<le> e" "e \<le> 3"
  shows "DayFromYear (1601 + 400 * a + 100 * b + 4 * c + e) =
           146097 * a + 36524 * b + 1461 * c + 365 * e - 134774"
proof -
  have "1601 + 400 * a + 100 * b + 4 * c + e - 1969 = 4 * (100 * a + 25 * b + c - 92) + e" by simp
  then have 1: "(1601 + 400 * a + 100 * b + 4 * c + e - 1969) div 4 = 100 * a + 25 * b + c - 92"
    using div_cycle [of e 4 "100 * a + 25 * b + c - 92"] assms by simp
  have "1601 + 400 * a + 100 * b + 4 * c + e - 1901 = 100 * (4 * a + b - 3) + (4 * c + e)" by simp
  then have 2: "(1601 + 400 * a + 100 * b + 4 * c + e - 1901) div 100 = 4 * a + b - 3"
    using div_cycle [of "4 * c + e" 100 "4 * a + b - 3"] assms by simp
  have "1601 + 400 * a + 100 * b + 4 * c + e - 1601 = 400 * a + (100 * b + 4 * c + e)" by simp
  then have 3: "(1601 + 400 * a + 100 * b + 4 * c + e - 1601) div 400 = a"
    using div_cycle [of "100 * b + 4 * c + e" 400 a] assms by simp
  show ?thesis unfolding DayFromYear_def 1 2 3 by simp
qed

lemma mod_cycle': "y = m * q + x \<Longrightarrow> 0 < x \<Longrightarrow> x \<le> m \<Longrightarrow> (y mod m = 0) = (x = (m :: int))"
  using mod_cycle [of x m q] by simp

lemma InLeapYear_cycles:
  fixes a b c e :: int
  assumes "0 \<le> b" "b \<le> 3" "0 \<le> c" "c \<le> 24" "0 \<le> e" "e \<le> 3"
  shows "InLeapYear (1601 + 400 * a + 100 * b + 4 * c + e) \<longleftrightarrow> e = 3 \<and> (c = 24 \<longrightarrow> b = 3)"
proof -
  have 1: "((1601 + 400 * a + 100 * b + 4 * c + e) mod 4 = 0) = (1 + e = 4)"
    by (rule mod_cycle' [where q = "400 + 100 * a + 25 * b + c"]) (use assms in simp_all)
  have 2: "((1601 + 400 * a + 100 * b + 4 * c + e) mod 100 = 0) = (1 + 4 * c + e = 100)"
    by (rule mod_cycle' [where q = "16 + 4 * a + b"]) (use assms in simp_all)
  have 3: "((1601 + 400 * a + 100 * b + 4 * c + e) mod 400 = 0) = (1 + 100 * b + 4 * c + e = 400)"
    by (rule mod_cycle' [where q = "4 + a"]) (use assms in simp_all)
  show ?thesis unfolding InLeapYear_def 1 2 3 using assms by auto
qed


lemma div_mod_bounds:
  fixes x m :: int
  assumes "0 < m" and "0 \<le> x"
  shows "x = m * (x div m) + x mod m" and "0 \<le> x mod m" and "x mod m < m" and "0 \<le> x div m"
  using assms by (simp_all add: pos_imp_zdiv_nonneg_iff)

lemma YearFromDay_cycles:
  obtains a b c e r2 :: int where
    "YearFromDay d = 1601 + 400 * a + 100 * b + 4 * c + e"
    and "a = (d + 134774) div 146097"
    and "0 \<le> b" and "b \<le> 3" and "0 \<le> c" and "c \<le> 24" and "0 \<le> e" and "e \<le> 3"
    and "d = 146097 * a + 36524 * b + 1461 * c + r2 - 134774"
    and "0 \<le> r2 - 365 * e" and "r2 - 365 * e \<le> 365"
    and "r2 - 365 * e = 365 \<longrightarrow> e = 3 \<and> (c = 24 \<longrightarrow> b = 3)"
proof -
  define n where "n = d + 134774"
  define a where "a = n div 146097"
  define r where "r = n mod 146097"
  define q1 where "q1 = r div 36524"
  define b where "b = min q1 3"
  define r1 where "r1 = r - 36524 * b"
  define c where "c = r1 div 1461"
  define r2 where "r2 = r1 mod 1461"
  define q2 where "q2 = r2 div 365"
  define e where "e = min q2 3"
  have y: "YearFromDay d = 1601 + 400 * a + 100 * b + 4 * c + e"
    by (simp add: YearFromDay_def Let_def n_def a_def r_def b_def q1_def r1_def c_def r2_def
        e_def q2_def)
  have n: "n = 146097 * a + r" and r: "0 \<le> r" "r < 146097"
    by (simp_all add: a_def r_def)
  from div_mod_bounds [of 36524 r] r
  have q1: "r = 36524 * q1 + r mod 36524" "0 \<le> r mod 36524" "r mod 36524 < 36524" "0 \<le> q1"
    by (simp_all add: q1_def)
  have b: "0 \<le> b" "b \<le> 3" using q1 by (simp_all add: b_def)
  have r1: "0 \<le> r1" "r1 \<le> 36524" "r1 = 36524 \<longrightarrow> b = 3"
    using q1 r by (auto simp: r1_def b_def min_def)
  from div_mod_bounds [of 1461 r1] r1
  have c0: "r1 = 1461 * c + r2" "0 \<le> r2" "r2 < 1461" "0 \<le> c"
    by (simp_all add: c_def r2_def)
  have c: "c \<le> 24" using c0 r1 by linarith
  from div_mod_bounds [of 365 r2] c0
  have q2: "r2 = 365 * q2 + r2 mod 365" "0 \<le> r2 mod 365" "r2 mod 365 < 365" "0 \<le> q2"
    by (simp_all add: q2_def)
  have e: "0 \<le> e" "e \<le> 3" using q2 by (simp_all add: e_def)
  have d: "d = 146097 * a + 36524 * b + 1461 * c + r2 - 134774"
    using n c0(1) by (simp add: n_def r1_def)
  have lo: "0 \<le> r2 - 365 * e" using q2 by (auto simp: e_def min_def)
  have hi: "r2 - 365 * e \<le> 365" "r2 - 365 * e = 365 \<longrightarrow> e = 3 \<and> r2 = 1460"
    using q2 c0 by (auto simp: e_def min_def)
  have leap: "r2 - 365 * e = 365 \<longrightarrow> e = 3 \<and> (c = 24 \<longrightarrow> b = 3)"
    using hi c0 r1 by auto
  have a: "a = (d + 134774) div 146097" by (simp add: a_def n_def)
  show ?thesis
    by (rule that [OF y a b(1) b(2) c0(4) c e(1) e(2) d lo hi(1) leap])
qed

lemma day_within_year:
  "0 \<le> d - DayFromYear (YearFromDay d) \<and>
   d - DayFromYear (YearFromDay d) < (if InLeapYear (YearFromDay d) then 366 else 365)"
proof -
  obtain a b c e r2 :: int where y: "YearFromDay d = 1601 + 400 * a + 100 * b + 4 * c + e"
    and b: "0 \<le> b" "b \<le> 3" and c: "0 \<le> c" "c \<le> 24" and e: "0 \<le> e" "e \<le> 3"
    and d: "d = 146097 * a + 36524 * b + 1461 * c + r2 - 134774"
    and r: "0 \<le> r2 - 365 * e" "r2 - 365 * e \<le> 365"
      "r2 - 365 * e = 365 \<longrightarrow> e = 3 \<and> (c = 24 \<longrightarrow> b = 3)"
    by (rule YearFromDay_cycles [of d]) blast
  have dwy: "d - DayFromYear (YearFromDay d) = r2 - 365 * e"
    unfolding y DayFromYear_cycles [OF b c e] using d by simp
  have "r2 - 365 * e = 365 \<longrightarrow> InLeapYear (YearFromDay d)"
    unfolding y InLeapYear_cycles [OF b c e] using r by simp
  with r show ?thesis unfolding dwy by auto
qed

lemma YearFromDay_range:
  assumes "\<bar>d\<bar> \<le> 100000000"
  shows "- 271999 \<le> YearFromDay d" and "YearFromDay d \<le> 276000"
proof -
  obtain a b c e r2 :: int where y: "YearFromDay d = 1601 + 400 * a + 100 * b + 4 * c + e"
    and a: "a = (d + 134774) div 146097"
    and b: "0 \<le> b" "b \<le> 3" and c: "0 \<le> c" "c \<le> 24" and e: "0 \<le> e" "e \<le> 3"
    by (rule YearFromDay_cycles [of d]) blast
  have "a \<le> 685" using zdiv_mono1 [of "d + 134774" 100134774 146097] assms by (simp add: a)
  moreover have "- 684 \<le> a" using zdiv_mono1 [of "- 99865226" "d + 134774" 146097] assms by (simp add: a)
  ultimately show "- 271999 \<le> YearFromDay d" and "YearFromDay d \<le> 276000"
    using y b c e by linarith+
qed

lemma month_and_date:
  assumes "0 \<le> dwy" and "dwy < (if leap then 366 else 365)"
  shows "MonthFromDay leap dwy \<le> 11"
    and "1 \<le> dwy - month_start leap (MonthFromDay leap dwy) + 1"
    and "dwy - month_start leap (MonthFromDay leap dwy) + 1 \<le> 31"
  using assms by (cases leap; simp add: MonthFromDay_def month_start_def)+

lemma time_within_day:
  fixes tod :: int
  assumes "0 \<le> tod" and "tod < 86400000"
  shows "0 \<le> tod div 3600000" and "tod div 3600000 \<le> 23"
    and "tod div 3600000 * 3600000 + tod div 60000 mod 60 * 60000 + tod div 1000 mod 60 * 1000 +
         tod mod 1000 = tod"
proof -
  show "0 \<le> tod div 3600000" using assms by (simp add: pos_imp_zdiv_nonneg_iff)
  show "tod div 3600000 \<le> 23" using zdiv_mono1 [of tod 86399999 3600000] assms by simp
  have 1: "tod = 1000 * (tod div 1000) + tod mod 1000" by simp
  have "tod div 60000 = tod div 1000 div 60" by (simp add: zdiv_zmult2_eq)
  then have 2: "tod div 1000 = 60 * (tod div 60000) + tod div 1000 mod 60" by simp
  have "tod div 3600000 = tod div 60000 div 60" by (simp add: zdiv_zmult2_eq)
  then have 3: "tod div 60000 = 60 * (tod div 3600000) + tod div 60000 mod 60" by simp
  from 1 2 3 show "tod div 3600000 * 3600000 + tod div 60000 mod 60 * 60000 +
      tod div 1000 mod 60 * 1000 + tod mod 1000 = tod" by linarith
qed

lemma length_two: "length xs = 2 \<Longrightarrow> \<exists>a b. xs = [a, b]"
  by (auto simp: length_Suc_conv numeral_2_eq_2)

lemma length_three: "length xs = 3 \<Longrightarrow> \<exists>a b c. xs = [a, b, c]"
  by (auto simp: length_Suc_conv numeral_3_eq_3)

lemma parse_fields_formatted:
  assumes "length M = 2" "length D = 2" "length H = 2" "length MI = 2" "length S = 2"
    and "length MS = 3"
    and "list_all is_digit Y" "list_all is_digit M" "list_all is_digit D" "list_all is_digit H"
    and "list_all is_digit MI" "list_all is_digit S" "list_all is_digit MS"
    and "1 \<le> nat_of_digits M" "nat_of_digits M \<le> 12" "1 \<le> nat_of_digits D" "nat_of_digits D \<le> 31"
    and "nat_of_digits H \<le> 23" "nat_of_digits MI \<le> 59" "nat_of_digits S \<le> 59"
    and "negative \<longrightarrow> nat_of_digits Y \<noteq> 0"
  shows "ecma_parse_fields negative Y
           (''-'' @ M @ ''-'' @ D @ ''T'' @ H @ '':'' @ MI @ '':'' @ S @ ''.'' @ MS @ ''Z'') =
         TimeClip (MakeDay (if negative then - int (nat_of_digits Y) else int (nat_of_digits Y))
                     (nat_of_digits M - 1) (int (nat_of_digits D)) * 86400000 +
                   (int (nat_of_digits H) * 3600000 + int (nat_of_digits MI) * 60000 +
                    int (nat_of_digits S) * 1000 + int (nat_of_digits MS)))"
proof -
  from assms(1-6) obtain m1 m2 d1 d2 h1 h2 i1 i2 s1 s2 l1 l2 l3 where
    f: "M = [m1, m2]" "D = [d1, d2]" "H = [h1, h2]" "MI = [i1, i2]" "S = [s1, s2]"
       "MS = [l1, l2, l3]"
    by (metis length_two length_three)
  show ?thesis
    using assms(7-) unfolding f ecma_parse_fields_def
    by (simp add: Let_def)
qed


lemma ecma_round_trip:
  assumes "\<bar>t\<bar> \<le> 8640000000000000"
  shows "ecma_parse (ecma_toISOString t) = Date t"
proof -
  define d where "d = Day t"
  define tod where "tod = TimeWithinDay t"
  define y where "y = YearFromDay d"
  define dwy where "dwy = d - DayFromYear y"
  define m where "m = MonthFromDay (InLeapYear y) dwy"
  define dt where "dt = dwy - month_start (InLeapYear y) m + 1"
  define M where "M = pad 2 (m + 1)"
  define D where "D = pad 2 (nat dt)"
  define H where "H = pad 2 (nat (tod div 3600000))"
  define MI where "MI = pad 2 (nat (tod div 60000 mod 60))"
  define S where "S = pad 2 (nat (tod div 1000 mod 60))"
  define MS where "MS = pad 3 (nat (tod mod 1000))"
  define R where "R = ''-'' @ M @ ''-'' @ D @ ''T'' @ H @ '':'' @ MI @ '':'' @ S @ ''.'' @ MS @ ''Z''"
  have s: "ecma_toISOString t = year_string y @ R"
    by (simp add: ecma_toISOString_def Let_def d_def tod_def y_def dwy_def m_def dt_def M_def
        D_def H_def MI_def S_def MS_def R_def)
  have t: "t = d * 86400000 + tod" and tod: "0 \<le> tod" "tod < 86400000"
    by (simp_all add: d_def tod_def Day_def TimeWithinDay_def)
  have d: "\<bar>d\<bar> \<le> 100000000"
    using assms zdiv_mono1 [of t 8640000000000000 86400000]
      zdiv_mono1 [of "- 8640000000000000" t 86400000]
    by (simp add: d_def Day_def)
  have dwy: "0 \<le> dwy" "dwy < (if InLeapYear y then 366 else 365)"
    using day_within_year [of d] unfolding dwy_def y_def by blast+
  have m: "m \<le> 11" unfolding m_def by (rule month_and_date(1) [OF dwy])
  have dt: "1 \<le> dt" "dt \<le> 31"
    unfolding dt_def m_def
    by (rule month_and_date(2) [OF dwy], rule month_and_date(3) [OF dwy])
  have h: "0 \<le> tod div 3600000" "tod div 3600000 \<le> 23"
    by (rule time_within_day(1) [OF tod], rule time_within_day(2) [OF tod])
  have sum: "tod div 3600000 * 3600000 + tod div 60000 mod 60 * 60000 +
             tod div 1000 mod 60 * 1000 + tod mod 1000 = tod"
    by (rule time_within_day(3) [OF tod])
  have pM: "length M = 2" "list_all is_digit M" "nat_of_digits M = m + 1"
    unfolding M_def using m by (simp_all add: pad_props)
  have pD: "length D = 2" "list_all is_digit D" "nat_of_digits D = nat dt"
    unfolding D_def using dt by (simp_all add: pad_props)
  have pH: "length H = 2" "list_all is_digit H" "nat_of_digits H = nat (tod div 3600000)"
    unfolding H_def using h by (simp_all add: pad_props)
  have mi: "0 \<le> tod div 60000 mod 60" "tod div 60000 mod 60 < 60"
    and se: "0 \<le> tod div 1000 mod 60" "tod div 1000 mod 60 < 60"
    and ms: "0 \<le> tod mod 1000" "tod mod 1000 < 1000" by simp_all
  have pMI: "length MI = 2" "list_all is_digit MI" "nat_of_digits MI = nat (tod div 60000 mod 60)"
    unfolding MI_def using mi by (simp_all add: pad_props)
  have pS: "length S = 2" "list_all is_digit S" "nat_of_digits S = nat (tod div 1000 mod 60)"
    unfolding S_def using se by (simp_all add: pad_props)
  have pMS: "length MS = 3" "list_all is_digit MS" "nat_of_digits MS = nat (tod mod 1000)"
    unfolding MS_def using ms by (simp_all add: pad_props)
  have lR: "length R = 20" by (simp add: R_def pM pD pH pMI pS pMS)
  have day: "MakeDay y m dt = d" by (simp add: MakeDay_def dt_def dwy_def)
  have vM: "1 \<le> nat_of_digits M" "nat_of_digits M \<le> 12" "nat_of_digits M - 1 = m"
    using pM(3) m by simp_all
  have vD: "1 \<le> nat_of_digits D" "nat_of_digits D \<le> 31" "int (nat_of_digits D) = dt"
    using pD(3) dt by simp_all
  have vH: "nat_of_digits H \<le> 23" "int (nat_of_digits H) = tod div 3600000"
    using pH(3) h by simp_all
  have vMI: "nat_of_digits MI \<le> 59" "int (nat_of_digits MI) = tod div 60000 mod 60"
    using pMI(3) mi by simp_all
  have vS: "nat_of_digits S \<le> 59" "int (nat_of_digits S) = tod div 1000 mod 60"
    using pS(3) se by simp_all
  have vMS: "int (nat_of_digits MS) = tod mod 1000"
    using pMS(3) ms by simp
  have tod_sum: "int (nat_of_digits H) * 3600000 + int (nat_of_digits MI) * 60000 +
                 int (nat_of_digits S) * 1000 + int (nat_of_digits MS) = tod"
    unfolding vH(2) vMI(2) vS(2) vMS by (rule sum)
  have fields: "ecma_parse_fields negative Y R =
      TimeClip (MakeDay (if negative then - int (nat_of_digits Y) else int (nat_of_digits Y)) m dt *
                86400000 + tod)"
    if Y: "list_all is_digit Y" and neg: "negative \<longrightarrow> nat_of_digits Y \<noteq> 0" for negative Y
    unfolding R_def
      parse_fields_formatted [OF pM(1) pD(1) pH(1) pMI(1) pS(1) pMS(1) Y pM(2) pD(2) pH(2)
        pMI(2) pS(2) pMS(2) vM(1) vM(2) vD(1) vD(2) vH(1) vMI(1) vS(1) neg]
      vM(3) vD(3) tod_sum ..
  from YearFromDay_range [OF d] have yr: "- 271999 \<le> y" "y \<le> 276000" by (simp_all add: y_def)
  have clip: "TimeClip (d * 86400000 + tod) = Date t"
    using assms t by (simp add: TimeClip_def)
  show ?thesis
  proof (cases "0 \<le> y \<and> y \<le> 9999")
    case True
    define Y where "Y = pad 4 (nat y)"
    have ny: "nat y < 10 ^ 4" using True by auto
    have pY: "length Y = 4" "list_all is_digit Y" "nat_of_digits Y = nat y"
      unfolding Y_def by (rule pad_props [OF zero_less_numeral ny])+
    have "ecma_parse (Y @ R) = ecma_parse_fields False Y R"
      by (simp add: ecma_parse_def pY lR)
    also have "\<dots> = TimeClip (MakeDay (int (nat_of_digits Y)) m dt * 86400000 + tod)"
      using fields [of Y False] pY by simp
    also have "\<dots> = Date t" using pY True day clip by simp
    finally show ?thesis using True by (simp add: s year_string_def Y_def)
  next
    case False
    define Y where "Y = pad 6 (nat \<bar>y\<bar>)"
    have ny: "nat \<bar>y\<bar> < 10 ^ 6" using yr by auto
    have pY: "length Y = 6" "list_all is_digit Y" "nat_of_digits Y = nat \<bar>y\<bar>"
      unfolding Y_def by (rule pad_props [OF zero_less_numeral ny])+
    show ?thesis
    proof (cases "y < 0")
      case True
      have "ecma_parse (''-'' @ Y @ R) = ecma_parse_fields True Y R"
        by (simp add: ecma_parse_def pY lR)
      also have "\<dots> = TimeClip (MakeDay (- int (nat_of_digits Y)) m dt * 86400000 + tod)"
        using fields [of Y True] pY True by simp
      also have "\<dots> = Date t" using pY True day clip by simp
      finally show ?thesis using True False by (simp add: s year_string_def Y_def)
    next
      case pos: False
      have "ecma_parse (''+'' @ Y @ R) = ecma_parse_fields False Y R"
        by (simp add: ecma_parse_def pY lR)
      also have "\<dots> = TimeClip (MakeDay (int (nat_of_digits Y)) m dt * 86400000 + tod)"
        using fields [of Y False] pY by simp
      also have "\<dots> = Date t" using pY pos day clip by simp
      finally show ?thesis using pos False by (simp add: s year_string_def Y_def)
    qed
  qed
qed

lemma round_trip_through_host:
  assumes "cap_createdAt c = Date t1" and "cap_updatedAt c = Date t2"
    and "parse (toISOString t1) = Date t1" and "parse (toISOString t2) = Date t2"
  shows "map_sum id (fromJSON parse) (toJSON toISOString c) =
           Inr (c\<lparr> cap_parameters := Some (getParameters c),
                   cap_conditions := Some (getConditions c),
                   cap_examples := Some (getExamples c) \<rparr>)"
  using assms
  by (auto simp: toJSON_def fromJSON_def date_toISOString_def getParameters_def getConditions_def
      getExamples_def)

text \<open>
  Claim C2, amended. For a capability whose two dates are valid (a time value within the
  range of a date), \<^verbatim>\<open>fromJSON(c.toJSON())\<close> is \<open>c\<close> with \<^verbatim>\<open>parameters\<close>,
  \<^verbatim>\<open>conditions\<close> and \<^verbatim>\<open>examples\<close> replaced by what \<^verbatim>\<open>getParameters()\<close>,
  \<^verbatim>\<open>getConditions()\<close> and \<^verbatim>\<open>getExamples()\<close> return: the dates survive the
  ISO-8601 text to the millisecond, and every field is equal but these three where they
  were absent, which come back as the empty array.
\<close>

theorem json_round_trip:
  assumes "cap_createdAt c = Date t1" and "cap_updatedAt c = Date t2"
    and "\<bar>t1\<bar> \<le> 8640000000000000" and "\<bar>t2\<bar> \<le> 8640000000000000"
  shows "map_sum id (fromJSON ecma_parse) (toJSON ecma_toISOString c) =
           Inr (c\<lparr> cap_parameters := Some (getParameters c),
                   cap_conditions := Some (getConditions c),
                   cap_examples := Some (getExamples c) \<rparr>)
       \<and> (cap_parameters c \<noteq> None \<and> cap_conditions c \<noteq> None \<and> cap_examples c \<noteq> None \<longrightarrow>
            map_sum id (fromJSON ecma_parse) (toJSON ecma_toISOString c) = Inr c)
       \<and> (cap_parameters c = None \<longrightarrow>
            map_sum id (\<lambda>json. cap_parameters (fromJSON ecma_parse json))
              (toJSON ecma_toISOString c) = Inr (Some []))"
proof -
  have r: "map_sum id (fromJSON ecma_parse) (toJSON ecma_toISOString c) =
           Inr (c\<lparr> cap_parameters := Some (getParameters c),
                   cap_conditions := Some (getConditions c),
                   cap_examples := Some (getExamples c) \<rparr>)"
    by (rule round_trip_through_host [OF assms(1) assms(2) ecma_round_trip [OF assms(3)]
          ecma_round_trip [OF assms(4)]])
  have j: "\<exists>json. toJSON ecma_toISOString c = Inr json"
    using assms(1,2) by (simp add: toJSON_def date_toISOString_def)
  show ?thesis
  proof (intro conjI impI)
    show "map_sum id (fromJSON ecma_parse) (toJSON ecma_toISOString c) =
           Inr (c\<lparr> cap_parameters := Some (getParameters c),
                   cap_conditions := Some (getConditions c),
                   cap_examples := Some (getExamples c) \<rparr>)" by (rule r)
  next
    assume "cap_parameters c \<noteq> None \<and> cap_conditions c \<noteq> None \<and> cap_examples c \<noteq> None"
    then have "c\<lparr> cap_parameters := Some (getParameters c),
                 cap_conditions := Some (getConditions c),
                 cap_examples := Some (getExamples c) \<rparr> = c"
      by (auto simp: getParameters_def getConditions_def getExamples_def)
    with r show "map_sum id (fromJSON ecma_parse) (toJSON ecma_toISOString c) = Inr c" by simp
  next
    assume "cap_parameters c = None"
    then have g: "getParameters c = []" by (simp add: getParameters_def)
    from j obtain json where json: "toJSON ecma_toISOString c = Inr json" by blast
    with r have "fromJSON ecma_parse json =
       c\<lparr> cap_parameters := Some (getParameters c),
          cap_conditions := Some (getConditions c),
          cap_examples := Some (getExamples c) \<rparr>" by simp
    with json g show "map_sum id (\<lambda>json. cap_parameters (fromJSON ecma_parse json))
              (toJSON ecma_toISOString c) = Inr (Some [])" by simp
  qed
qed

theorem json_round_trip_witness:
  "cap_createdAt (login_capability ''login-1'' ''login'' ''Log the user in'') = Date 0
 \<and> \<bar>0 :: int\<bar> \<le> 8640000000000000
 \<and> ecma_toISOString 0 = ''1970-01-01T00:00:00.000Z''
 \<and> map_sum id (fromJSON ecma_parse)
      (toJSON ecma_toISOString (login_capability ''login-1'' ''login'' ''Log the user in'')) =
      Inr ((login_capability ''login-1'' ''login'' ''Log the user in'')
             \<lparr> cap_conditions := Some [], cap_examples := Some [] \<rparr>)"
proof -
  let ?c = "login_capability ''login-1'' ''login'' ''Log the user in''"
  have h1: "cap_createdAt ?c = Date 0" and h2: "cap_updatedAt ?c = Date 0"
    by (simp_all add: login_capability_def create_def)
  have h3: "\<bar>0 :: int\<bar> \<le> 8640000000000000" by simp
  have s: "ecma_toISOString 0 = ''1970-01-01T00:00:00.000Z''" by code_simp
  from json_round_trip [OF h1 h2 h3 h3] h1 s show ?thesis
    by (simp add: login_capability_def create_def with_parameters_def getParameters_def
        getConditions_def getExamples_def)
qed

text \<open>
  Claim C2 as stated: the capability \<open>undescribed_capability\<close> has no
  \<^verbatim>\<open>parameters\<close>, and after the round trip it has the empty array.
\<close>

theorem absent_parameters_become_empty:
  "cap_parameters undescribed_capability = None
 \<and> map_sum id (\<lambda>json. cap_parameters (fromJSON ecma_parse json))
      (toJSON ecma_toISOString undescribed_capability) = Inr (Some [])"
  by (simp add: undescribed_capability_def create_def toJSON_def fromJSON_def
      date_toISOString_def getParameters_def)

end
